theory Spec2Isabelle
  imports Complex_Main "HOL-Library.AList"
begin

section \<open>Hospital kiosk backend: data model\<close>

text \<open>
  The handlers of \<^verbatim>\<open>main.py\<close> raise \<^verbatim>\<open>HTTPException(status_code, detail)\<close>.
  Constructing the pydantic model \<^verbatim>\<open>Appointment\<close> may raise a validation error,
  FastAPI rejects a query parameter outside its \<^verbatim>\<open>ge\<close>/\<open>le\<close> bounds before the
  handler body runs, and the store adapter raises when there is no database.
\<close>

datatype error =
    HTTPException int string
  | ValidationError
  | RequestValidationError
  | StoreException
  | ValueError

definition InvalidDepartment :: error where
  "InvalidDepartment = HTTPException 400 ''Unknown department''"

definition CapacityExceeded :: error where
  "CapacityExceeded = HTTPException 400 ''No slots available for this date and department''"

definition StoreUnavailable :: error where
  "StoreUnavailable = HTTPException 500 ''Database not available''"

definition MissingCheckInFields :: error where
  "MissingCheckInFields =
     HTTPException 400 ''Provide booking_code or name, phone, department and date''"

definition AppointmentNotFound :: error where
  "AppointmentNotFound = HTTPException 404 ''Appointment not found''"

text \<open>\<^verbatim>\<open>schemas.py\<close>: the pydantic models. Strings are ASCII strings here.\<close>

record Appointment =
  patient_name :: string
  phone :: string
  email :: "string option"
  department :: string
  date :: string
  time_slot :: "string option"
  status :: string
  booking_code :: "string option"

record AppointmentCreate =
  c_patient_name :: string
  c_phone :: string
  c_email :: "string option"
  c_department :: string
  c_date :: string
  c_time_slot :: "string option"

record CheckInRequest =
  r_booking_code :: "string option"
  r_patient_name :: "string option"
  r_phone :: "string option"
  r_department :: "string option"
  r_date :: "string option"

text \<open>
  A stored document: the dumped \<^verbatim>\<open>Appointment\<close> with the store's \<^verbatim>\<open>_id\<close>, and the
  \<^verbatim>\<open>checked_in_at\<close> field that only \<^verbatim>\<open>check_in\<close> sets (a timestamp, here a number).
\<close>

record document = Appointment +
  doc_id :: nat
  checked_in_at :: "nat option"

subsection \<open>Configuration\<close>

definition DEPARTMENTS :: "string list" where
  "DEPARTMENTS = [''General'', ''Cardiology'', ''Pediatrics'', ''Radiology'', ''Orthopedics'']"

definition DEPARTMENT_CAPACITY :: int where
  "DEPARTMENT_CAPACITY = 25"

subsection \<open>The document store\<close>

text \<open>
  Modelled from the spec: the document store adapter (\<^verbatim>\<open>database.py\<close>: \<^verbatim>\<open>db\<close>,
  \<^verbatim>\<open>create_document\<close>, \<^verbatim>\<open>get_documents\<close>) and the collection behind it are not part of
  the sources. The spec describes a generic create/read/count over a single collection
  whose identifiers are assigned by the store. The collection is the list of its documents
  in insertion order together with the next fresh identifier; \<^verbatim>\<open>db\<close> is \<open>None\<close> when
  the store is not initialised.
\<close>

record store =
  docs :: "document list"
  next_id :: nat

type_synonym db = "store option"

definition empty_store :: store where
  "empty_store = \<lparr>docs = [], next_id = 0\<rparr>"

text \<open>
  A query dictionary of equality conditions; a key that is absent from the dictionary
  is \<open>None\<close>. These are all the keys the handlers ever put into a query.
\<close>

record query =
  q_id :: "nat option"
  q_booking_code :: "string option"
  q_patient_name :: "string option"
  q_phone :: "string option"
  q_department :: "string option"
  q_date :: "string option"

definition empty_query :: query where
  "empty_query = \<lparr>q_id = None, q_booking_code = None, q_patient_name = None,
     q_phone = None, q_department = None, q_date = None\<rparr>"

definition cond :: "'a option \<Rightarrow> 'a \<Rightarrow> bool" where
  "cond c v = (case c of None \<Rightarrow> True | Some w \<Rightarrow> v = w)"

definition matches :: "query \<Rightarrow> document \<Rightarrow> bool" where
  "matches q d \<longleftrightarrow>
     cond (q_id q) (doc_id d) \<and>
     (case q_booking_code q of None \<Rightarrow> True | Some w \<Rightarrow> booking_code d = Some w) \<and>
     cond (q_patient_name q) (patient_name d) \<and>
     cond (q_phone q) (phone d) \<and>
     cond (q_department q) (department d) \<and>
     cond (q_date q) (date d)"

text \<open>Modelled from the spec: \<^verbatim>\<open>find\<close>, \<^verbatim>\<open>find_one\<close>, \<^verbatim>\<open>insert_one\<close> and \<^verbatim>\<open>update_one\<close>
  of the collection, which are not part of the sources.\<close>

definition find_docs :: "query \<Rightarrow> store \<Rightarrow> document list" where
  "find_docs q s = filter (matches q) (docs s)"

definition find_one :: "query \<Rightarrow> store \<Rightarrow> document option" where
  "find_one q s = List.find (matches q) (docs s)"

fun update_first :: "(document \<Rightarrow> bool) \<Rightarrow> (document \<Rightarrow> document) \<Rightarrow> document list \<Rightarrow> document list" where
  "update_first P f [] = []"
| "update_first P f (d # ds) = (if P d then f d # ds else d # update_first P f ds)"

definition update_one :: "query \<Rightarrow> (document \<Rightarrow> document) \<Rightarrow> store \<Rightarrow> store" where
  "update_one q f s = s\<lparr>docs := update_first (matches q) f (docs s)\<rparr>"

definition insert_one :: "Appointment \<Rightarrow> store \<Rightarrow> nat \<times> store" where
  "insert_one a s =
     (next_id s,
      \<lparr>docs = docs s @ [Appointment.extend a
           (document.fields (next_id s) None)],
       next_id = Suc (next_id s)\<rparr>)"

text \<open>
  The pipeline \<^verbatim>\<open>[{"$match": {"department": .., "date": ..}}, {"$count": "count"}]\<close>:
  the count stage yields one row with the number of matching documents, and no row at
  all when nothing matches.
\<close>

definition aggregate_match_count :: "query \<Rightarrow> store \<Rightarrow> int list" where
  "aggregate_match_count q s =
     (let n = length (find_docs q s) in if n = 0 then [] else [int n])"

text \<open>Modelled from the spec: \<^verbatim>\<open>create_document\<close> and \<^verbatim>\<open>get_documents\<close> of the store
  adapter, which are not part of the sources; both fail when the store is unavailable.\<close>

definition create_document :: "Appointment \<Rightarrow> db \<Rightarrow> (error + nat) \<times> db" where
  "create_document a db =
     (case db of
        None \<Rightarrow> (Inl StoreException, db)
      | Some s \<Rightarrow> (let (i, s') = insert_one a s in (Inr i, Some s')))"

definition get_documents :: "query \<Rightarrow> db \<Rightarrow> error + document list" where
  "get_documents q db =
     (case db of None \<Rightarrow> Inl StoreException | Some s \<Rightarrow> Inr (find_docs q s))"

section \<open>Utility functions\<close>

definition count_booked_for :: "db \<Rightarrow> string \<Rightarrow> string \<Rightarrow> int" where
  "count_booked_for db dept day_str =
     (let pipeline = empty_query\<lparr>q_department := Some dept, q_date := Some day_str\<rparr>;
          result = (case db of Some s \<Rightarrow> aggregate_match_count pipeline s | None \<Rightarrow> [])
      in case result of c # _ \<Rightarrow> c | [] \<Rightarrow> 0)"

text \<open>
  Python's \<^verbatim>\<open>round\<close> on one argument rounds half to even. The quotient
  \<^verbatim>\<open>booked / DEPARTMENT_CAPACITY * 100\<close> is computed in floating point by the source and
  in exact rational arithmetic here.
\<close>

definition py_round :: "rat \<Rightarrow> int" where
  "py_round x =
     (let f = \<lfloor>x\<rfloor>; r = x - of_int f
      in if r < 1 / 2 then f
         else if 1 / 2 < r then f + 1
         else if even f then f else f + 1)"

definition used_pct_of :: "int \<Rightarrow> int" where
  "used_pct_of booked =
     (if DEPARTMENT_CAPACITY \<noteq> 0
      then py_round ((of_int booked / of_int DEPARTMENT_CAPACITY) * 100)
      else 0)"

section \<open>Routes\<close>

subsection \<open>\<^verbatim>\<open>GET /availability\<close>\<close>

record availability =
  av_department :: string
  av_date :: string
  av_capacity :: int
  av_booked :: int
  av_remaining :: int
  av_used_pct :: int

definition get_availability :: "db \<Rightarrow> string \<Rightarrow> string \<Rightarrow> error + availability" where
  "get_availability db dept date_str =
     (if dept \<notin> set DEPARTMENTS then Inl InvalidDepartment
      else
        let booked = count_booked_for db dept date_str;
            remaining = max 0 (DEPARTMENT_CAPACITY - booked);
            used_pct = used_pct_of booked
        in Inr \<lparr>av_department = dept, av_date = date_str,
                 av_capacity = DEPARTMENT_CAPACITY, av_booked = booked,
                 av_remaining = remaining, av_used_pct = used_pct\<rparr>)"

text \<open>The documents that are persisted at a given moment.\<close>

definition persisted :: "db \<Rightarrow> document list" where
  "persisted db = (case db of None \<Rightarrow> [] | Some s \<Rightarrow> docs s)"

subsection \<open>\<^verbatim>\<open>GET /calendar-availability\<close>\<close>

text \<open>
  Python's \<^verbatim>\<open>datetime.date(year, month, day)\<close> raises \<^verbatim>\<open>ValueError\<close> unless the
  year is in 1..9999, the month in 1..12 and the day in 1..(days of that month), in the
  proleptic Gregorian calendar.
\<close>

definition is_leap :: "int \<Rightarrow> bool" where
  "is_leap y \<longleftrightarrow> y mod 4 = 0 \<and> (y mod 100 \<noteq> 0 \<or> y mod 400 = 0)"

definition days_in_month :: "int \<Rightarrow> int \<Rightarrow> int" where
  "days_in_month y m =
     (if m = 2 then (if is_leap y then 29 else 28)
      else if m \<in> {4, 6, 9, 11} then 30 else 31)"

record py_date =
  d_year :: int
  d_month :: int
  d_day :: int

definition mk_date :: "int \<Rightarrow> int \<Rightarrow> int \<Rightarrow> error + py_date" where
  "mk_date y m d =
     (if 1 \<le> y \<and> y \<le> 9999 \<and> 1 \<le> m \<and> m \<le> 12 \<and> 1 \<le> d \<and> d \<le> days_in_month y m
      then Inr \<lparr>d_year = y, d_month = m, d_day = d\<rparr>
      else Inl ValueError)"

text \<open>Decimal rendering of a Python int, and the format specification \<^verbatim>\<open>0wd\<close>
  (sign-aware zero padding to a minimum width \<open>w\<close>).\<close>

definition digit_char :: "nat \<Rightarrow> char" where
  "digit_char n = char_of (48 + n)"

fun dec :: "nat \<Rightarrow> string" where
  "dec n = (if n < 10 then [digit_char n] else dec (n div 10) @ [digit_char (n mod 10)])"

definition zfill :: "nat \<Rightarrow> string \<Rightarrow> string" where
  "zfill w s = replicate (w - length s) (CHR ''0'') @ s"

definition format_0d :: "nat \<Rightarrow> int \<Rightarrow> string" where
  "format_0d w n =
     (if n < 0 then CHR ''-'' # zfill (w - 1) (dec (nat (- n)))
      else zfill w (dec (nat n)))"

definition strftime_ymd :: "py_date \<Rightarrow> string" where
  "strftime_ymd d =
     format_0d 4 (d_year d) @ ''-'' @ format_0d 2 (d_month d) @ ''-'' @ format_0d 2 (d_day d)"

record day_entry =
  de_booked :: int
  de_remaining :: int
  de_used_pct :: int
  de_capacity :: int

record calendar =
  cal_department :: string
  cal_year :: int
  cal_month :: int
  cal_days :: "(string \<times> day_entry) list"

text \<open>One iteration of the loop over the candidate days; the dictionary \<^verbatim>\<open>days\<close> is an
  association list in insertion order.\<close>

definition calendar_day ::
  "db \<Rightarrow> string \<Rightarrow> int \<Rightarrow> int \<Rightarrow> (string \<times> day_entry) list \<Rightarrow> int \<Rightarrow> (string \<times> day_entry) list" where
  "calendar_day db dept y m days dy =
     (case mk_date y m dy of
        Inl _ \<Rightarrow> days
      | Inr d \<Rightarrow>
          let d_str = strftime_ymd d;
              booked = count_booked_for db dept d_str;
              used_pct = used_pct_of booked
          in AList.update d_str
               \<lparr>de_booked = booked,
                de_remaining = max 0 (DEPARTMENT_CAPACITY - booked),
                de_used_pct = used_pct,
                de_capacity = DEPARTMENT_CAPACITY\<rparr> days)"

definition calendar_availability :: "db \<Rightarrow> string \<Rightarrow> int \<Rightarrow> int \<Rightarrow> error + calendar" where
  "calendar_availability db dept y m =
     (if dept \<notin> set DEPARTMENTS then Inl InvalidDepartment
      else Inr \<lparr>cal_department = dept, cal_year = y, cal_month = m,
                 cal_days = foldl (calendar_day db dept y m) [] [1..31]\<rparr>)"

text \<open>
  The route \<^verbatim>\<open>GET /calendar-availability\<close>: FastAPI validates the query parameters before it
  calls the handler, the department against the literals of \<^verbatim>\<open>DepartmentName\<close>, the year
  against \<^verbatim>\<open>ge=1970, le=2100\<close> and the month against \<^verbatim>\<open>ge=1, le=12\<close>, and answers 422
  when one of them fails.
\<close>

definition valid_calendar_query :: "string \<Rightarrow> int \<Rightarrow> int \<Rightarrow> bool" where
  "valid_calendar_query dept y m \<longleftrightarrow>
     dept \<in> set DEPARTMENTS \<and> 1970 \<le> y \<and> y \<le> 2100 \<and> 1 \<le> m \<and> m \<le> 12"

definition get_calendar_availability :: "db \<Rightarrow> string \<Rightarrow> int \<Rightarrow> int \<Rightarrow> error + calendar" where
  "get_calendar_availability db dept y m =
     (if valid_calendar_query dept y m then calendar_availability db dept y m
      else Inl RequestValidationError)"

subsection \<open>\<^verbatim>\<open>POST /appointments\<close>\<close>

text \<open>\<^verbatim>\<open>str.upper\<close> on ASCII text, and \<^verbatim>\<open>str.replace('-', '')\<close>.\<close>

definition char_upper :: "char \<Rightarrow> char" where
  "char_upper c =
     (let n = (of_char c :: nat) in if 97 \<le> n \<and> n \<le> 122 then char_of (n - 32) else c)"

definition upper :: "string \<Rightarrow> string" where
  "upper s = map char_upper s"

definition remove_dashes :: "string \<Rightarrow> string" where
  "remove_dashes s = filter (\<lambda>c. c \<noteq> CHR ''-'') s"

text \<open>The pattern \<^verbatim>\<open>^\d{4}-\d{2}-\d{2}$\<close> of the \<^verbatim>\<open>date\<close> field, on ASCII text: each
  piece of the pattern consumes a prefix of the input, and nothing may be left over.\<close>

definition is_digit :: "char \<Rightarrow> bool" where
  "is_digit c \<longleftrightarrow> (let n = (of_char c :: nat) in 48 \<le> n \<and> n \<le> 57)"

fun digits :: "nat \<Rightarrow> string \<Rightarrow> string option" where
  "digits 0 s = Some s"
| "digits (Suc n) [] = None"
| "digits (Suc n) (c # s) = (if is_digit c then digits n s else None)"

fun lit :: "char \<Rightarrow> string \<Rightarrow> string option" where
  "lit x [] = None"
| "lit x (c # s) = (if c = x then Some s else None)"

definition date_pattern :: "string \<Rightarrow> bool" where
  "date_pattern s \<longleftrightarrow>
     Option.bind (Option.bind (Option.bind (Option.bind (digits 4 s)
       (lit (CHR ''-''))) (digits 2)) (lit (CHR ''-''))) (digits 2) = Some []"

text \<open>
  Constructing an \<^verbatim>\<open>Appointment\<close> validates every field. \<^verbatim>\<open>EmailStr\<close> belongs to a
  library outside the sources: its validator is the parameter \<open>ve\<close>, which returns the
  normalised address, or \<open>None\<close> for a string that is not an address.
\<close>

definition new_Appointment :: "(string \<Rightarrow> string option) \<Rightarrow> Appointment \<Rightarrow> error + Appointment" where
  "new_Appointment ve a =
     (if length (patient_name a) < 2 then Inl ValidationError
      else if department a \<notin> set DEPARTMENTS then Inl ValidationError
      else if \<not> date_pattern (date a) then Inl ValidationError
      else if status a \<notin> {''booked'', ''checked_in''} then Inl ValidationError
      else case email a of
          None \<Rightarrow> Inr a
        | Some e \<Rightarrow> (case ve e of None \<Rightarrow> Inl ValidationError
                                 | Some e' \<Rightarrow> Inr (a\<lparr>email := Some e'\<rparr>)))"

record create_response =
  cr_id :: nat
  cr_booking_code :: string
  cr_status :: string

definition create_appointment ::
  "(string \<Rightarrow> string option) \<Rightarrow> db \<Rightarrow> AppointmentCreate \<Rightarrow> (error + create_response) \<times> db" where
  "create_appointment ve db payload =
     (if c_department payload \<notin> set DEPARTMENTS then (Inl InvalidDepartment, db)
      else
        let booked = count_booked_for db (c_department payload) (c_date payload) in
        if booked \<ge> DEPARTMENT_CAPACITY then (Inl CapacityExceeded, db)
        else
          let code_base = upper (take 3 (c_department payload)) @ remove_dashes (c_date payload);
              counter = booked + 1;
              code = code_base @ ''-'' @ format_0d 3 counter
          in case new_Appointment ve
                    \<lparr>patient_name = c_patient_name payload,
                     phone = c_phone payload,
                     email = c_email payload,
                     department = c_department payload,
                     date = c_date payload,
                     time_slot = c_time_slot payload,
                     status = ''booked'',
                     booking_code = Some code\<rparr> of
               Inl e \<Rightarrow> (Inl e, db)
             | Inr doc \<Rightarrow>
                 (case create_document doc db of
                    (Inl e, db') \<Rightarrow> (Inl e, db')
                  | (Inr inserted_id, db') \<Rightarrow>
                      (Inr \<lparr>cr_id = inserted_id, cr_booking_code = code,
                            cr_status = ''booked''\<rparr>, db')))"

subsection \<open>\<^verbatim>\<open>POST /checkin\<close>\<close>

text \<open>Truthiness of an optional string: \<^verbatim>\<open>None\<close> and the empty string are false.\<close>

definition truthy :: "string option \<Rightarrow> bool" where
  "truthy x = (case x of None \<Rightarrow> False | Some s \<Rightarrow> s \<noteq> [])"

record checkin_response =
  ci_id :: nat
  ci_status :: string
  ci_booking_code :: "string option"

text \<open>The query that \<^verbatim>\<open>check_in\<close> builds from the request.\<close>

definition check_in_query :: "CheckInRequest \<Rightarrow> error + query" where
  "check_in_query payload =
     (if truthy (r_booking_code payload)
      then Inr (empty_query\<lparr>q_booking_code := r_booking_code payload\<rparr>)
      else
        let required = [r_patient_name payload, r_phone payload,
                        r_department payload, r_date payload]
        in if \<not> list_all truthy required then Inl MissingCheckInFields
           else Inr (empty_query\<lparr>q_patient_name := r_patient_name payload,
                                  q_phone := r_phone payload,
                                  q_department := r_department payload,
                                  q_date := r_date payload\<rparr>))"

definition mark_checked_in :: "nat \<Rightarrow> document \<Rightarrow> document" where
  "mark_checked_in now d = d\<lparr>status := ''checked_in'', checked_in_at := Some now\<rparr>"

definition check_in :: "nat \<Rightarrow> db \<Rightarrow> CheckInRequest \<Rightarrow> (error + checkin_response) \<times> db" where
  "check_in now db payload =
     (case db of
        None \<Rightarrow> (Inl StoreUnavailable, db)
      | Some s \<Rightarrow>
          (case check_in_query payload of
             Inl e \<Rightarrow> (Inl e, db)
           | Inr q \<Rightarrow>
               (case find_one q s of
                  None \<Rightarrow> (Inl AppointmentNotFound, db)
                | Some appt \<Rightarrow>
                    if status appt = ''checked_in''
                    then (Inr \<lparr>ci_id = doc_id appt, ci_status = ''checked_in'',
                               ci_booking_code = booking_code appt\<rparr>, db)
                    else (Inr \<lparr>ci_id = doc_id appt, ci_status = ''checked_in'',
                               ci_booking_code = booking_code appt\<rparr>,
                          Some (update_one (empty_query\<lparr>q_id := Some (doc_id appt)\<rparr>)
                                  (mark_checked_in now) s)))))"

text \<open>
  The route \<^verbatim>\<open>POST /checkin\<close>: FastAPI validates the request body against
  \<^verbatim>\<open>CheckInRequest\<close> before it calls the handler. The only constrained field is
  \<^verbatim>\<open>department: Optional[DepartmentName]\<close>, which must be absent or one of the literals.
\<close>

definition valid_CheckInRequest :: "CheckInRequest \<Rightarrow> bool" where
  "valid_CheckInRequest rq \<longleftrightarrow>
     (case r_department rq of None \<Rightarrow> True | Some d \<Rightarrow> d \<in> set DEPARTMENTS)"

definition post_checkin :: "nat \<Rightarrow> db \<Rightarrow> CheckInRequest \<Rightarrow> (error + checkin_response) \<times> db" where
  "post_checkin now db rq =
     (if valid_CheckInRequest rq then check_in now db rq
      else (Inl RequestValidationError, db))"

subsection \<open>\<^verbatim>\<open>GET /patients\<close>\<close>

record patient_row =
  pt_id :: nat
  pt_patient_name :: string
  pt_phone :: string
  pt_email :: "string option"
  pt_department :: string
  pt_date :: string
  pt_status :: string
  pt_booking_code :: "string option"

record summary =
  sm_total :: int
  sm_checked_in :: int
  sm_booked :: int

definition project :: "document \<Rightarrow> patient_row" where
  "project d =
     \<lparr>pt_id = doc_id d, pt_patient_name = patient_name d, pt_phone = phone d,
      pt_email = email d, pt_department = department d, pt_date = date d,
      pt_status = status d, pt_booking_code = booking_code d\<rparr>"

definition patients_tracking :: "db \<Rightarrow> string option \<Rightarrow> error + summary \<times> patient_row list" where
  "patients_tracking db date_str =
     (let q = (if truthy date_str then empty_query\<lparr>q_date := date_str\<rparr> else empty_query)
      in case get_documents q db of
           Inl e \<Rightarrow> Inl e
         | Inr ds \<Rightarrow>
             let out = map project ds;
                 sm = \<lparr>sm_total = int (length out),
                       sm_checked_in =
                         sum_list (map (\<lambda>x. 1) (filter (\<lambda>x. pt_status x = ''checked_in'') out)),
                       sm_booked =
                         sum_list (map (\<lambda>x. 1) (filter (\<lambda>x. pt_status x \<noteq> ''checked_in'') out))\<rparr>
             in Inr (sm, out))"

section \<open>Reachable stores\<close>

text \<open>
  A step of the system is one call of a handler that can write: the other handlers only
  read. The reachable stores are those that a sequence of steps produces from the empty one.
\<close>

inductive step :: "store \<Rightarrow> store \<Rightarrow> bool" where
  step_create: "create_appointment ve (Some s) payload = (r, Some s') \<Longrightarrow> step s s'"
| step_check_in: "check_in now (Some s) rq = (r', Some s') \<Longrightarrow> step s s'"

definition reachable :: "store \<Rightarrow> bool" where
  "reachable s \<longleftrightarrow> step\<^sup>*\<^sup>* empty_store s"

section \<open>Vocabulary of the statements\<close>

text \<open>The number of stored appointments of a department on a date.\<close>

definition booked_count :: "store \<Rightarrow> string \<Rightarrow> string \<Rightarrow> nat" where
  "booked_count s dp dt = length (filter (\<lambda>d. department d = dp \<and> date d = dt) (docs s))"

text \<open>The part of a booking input that the \<^verbatim>\<open>Appointment\<close> model checks besides the
  department and the date: the length of the name and the address.\<close>

definition name_email_ok :: "(string \<Rightarrow> string option) \<Rightarrow> AppointmentCreate \<Rightarrow> bool" where
  "name_email_ok ve p \<longleftrightarrow>
     2 \<le> length (c_patient_name p) \<and>
     (case c_email p of None \<Rightarrow> True | Some e \<Rightarrow> ve e \<noteq> None)"

definition stored_email :: "(string \<Rightarrow> string option) \<Rightarrow> string option \<Rightarrow> string option" where
  "stored_email ve e = (case e of None \<Rightarrow> None | Some x \<Rightarrow> ve x)"

text \<open>The document that a successful booking appends to the store.\<close>

definition new_document :: "(string \<Rightarrow> string option) \<Rightarrow> store \<Rightarrow> AppointmentCreate \<Rightarrow> document" where
  "new_document ve s p =
     \<lparr>patient_name = c_patient_name p, phone = c_phone p,
      email = stored_email ve (c_email p),
      department = c_department p, date = c_date p, time_slot = c_time_slot p,
      status = ''booked'',
      booking_code = Some (upper (take 3 (c_department p)) @ remove_dashes (c_date p) @ ''-'' @
         format_0d 3 (int (booked_count s (c_department p) (c_date p)) + 1)),
      doc_id = next_id s, checked_in_at = None\<rparr>"

text \<open>The booking code in the words of the specification: the first three letters of the
  department in upper case, the date without its dashes, a dash, and a sequence number of
  exactly three digits.\<close>

definition three_digits :: "nat \<Rightarrow> string" where
  "three_digits n =
     [digit_char (n div 100 mod 10), digit_char (n div 10 mod 10), digit_char (n mod 10)]"

definition spec_booking_code :: "string \<Rightarrow> string \<Rightarrow> nat \<Rightarrow> string" where
  "spec_booking_code dept dt n = upper (take 3 dept) @ remove_dashes dt @ ''-'' @ three_digits n"

text \<open>The two ways in which a request designates an appointment, and the answer of a
  check-in for an appointment.\<close>

definition by_code :: "CheckInRequest \<Rightarrow> document \<Rightarrow> bool" where
  "by_code rq d \<longleftrightarrow> booking_code d = r_booking_code rq"

definition by_fields :: "CheckInRequest \<Rightarrow> document \<Rightarrow> bool" where
  "by_fields rq d \<longleftrightarrow>
     Some (patient_name d) = r_patient_name rq \<and> Some (phone d) = r_phone rq \<and>
     Some (department d) = r_department rq \<and> Some (date d) = r_date rq"

definition checked_in_response :: "document \<Rightarrow> checkin_response" where
  "checked_in_response a =
     \<lparr>ci_id = doc_id a, ci_status = ''checked_in'', ci_booking_code = booking_code a\<rparr>"

text \<open>
  The well-formedness that the document store maintains: identifiers are unique and below
  the next fresh one. And the order in which an appointment and a store can evolve:
  an appointment keeps its identifier and its booking data, and its status stays what it
  was or becomes \<open>checked_in\<close>; a store keeps every appointment, at its position.
\<close>

definition wf_store :: "store \<Rightarrow> bool" where
  "wf_store s \<longleftrightarrow>
     distinct (map doc_id (docs s)) \<and> list_all (\<lambda>d. doc_id d < next_id s) (docs s)"

definition doc_le :: "document \<Rightarrow> document \<Rightarrow> bool" where
  "doc_le d d' \<longleftrightarrow>
     doc_id d' = doc_id d \<and> patient_name d' = patient_name d \<and> phone d' = phone d \<and>
     email d' = email d \<and> department d' = department d \<and> date d' = date d \<and>
     time_slot d' = time_slot d \<and> booking_code d' = booking_code d \<and>
     (status d' = status d \<or> status d' = ''checked_in'') \<and>
     (if status d = ''checked_in'' then status d' = ''checked_in'' else True)"

definition store_le :: "store \<Rightarrow> store \<Rightarrow> bool" where
  "store_le s s' \<longleftrightarrow>
     length (docs s) \<le> length (docs s') \<and>
     list_all2 doc_le (docs s) (take (length (docs s)) (docs s'))"

text \<open>The ISO form of a calendar day, and the metrics of a day as \<^verbatim>\<open>get_availability\<close>
  reports them.\<close>

definition iso_date :: "int \<Rightarrow> int \<Rightarrow> int \<Rightarrow> string" where
  "iso_date y m d = strftime_ymd \<lparr>d_year = y, d_month = m, d_day = d\<rparr>"

text \<open>
  The calendar in the words of the specification, written without the functions of the
  program: the table of the lengths of the months with the Gregorian leap rule, and the
  ISO string of a day, digit by digit.
\<close>

definition month_length :: "int \<Rightarrow> int \<Rightarrow> int" where
  "month_length y m =
     [31, if y mod 4 = 0 \<and> (y mod 100 \<noteq> 0 \<or> y mod 400 = 0) then 29 else 28,
      31, 30, 31, 30, 31, 31, 30, 31, 30, 31] ! nat (m - 1)"

definition decimal_digit :: "nat \<Rightarrow> char" where
  "decimal_digit n = ''0123456789'' ! n"

definition spec_iso_date :: "int \<Rightarrow> int \<Rightarrow> int \<Rightarrow> string" where
  "spec_iso_date y m d =
     [decimal_digit (nat y div 1000 mod 10), decimal_digit (nat y div 100 mod 10),
      decimal_digit (nat y div 10 mod 10), decimal_digit (nat y mod 10), CHR ''-'',
      decimal_digit (nat m div 10 mod 10), decimal_digit (nat m mod 10), CHR ''-'',
      decimal_digit (nat d div 10 mod 10), decimal_digit (nat d mod 10)]"

definition day_metrics :: "availability \<Rightarrow> day_entry" where
  "day_metrics a =
     \<lparr>de_booked = av_booked a, de_remaining = av_remaining a,
      de_used_pct = av_used_pct a, de_capacity = av_capacity a\<rparr>"

subsection \<open>Sample data\<close>

definition demo_payload :: AppointmentCreate where
  "demo_payload = \<lparr>c_patient_name = ''Ada'', c_phone = ''555'', c_email = None,
     c_department = ''Cardiology'', c_date = ''2024-05-01'', c_time_slot = None\<rparr>"

definition demo_doc :: "nat \<Rightarrow> document" where
  "demo_doc i =
     \<lparr>patient_name = ''Ada'', phone = ''555'', email = None,
      department = ''Cardiology'', date = ''2024-05-01'', time_slot = None,
      status = ''booked'',
      booking_code = Some (''CAR20240501-'' @ format_0d 3 (int i + 1)),
      doc_id = i, checked_in_at = None\<rparr>"

definition done_doc :: document where
  "done_doc = (demo_doc 0)\<lparr>status := ''checked_in'', checked_in_at := Some 7\<rparr>"

definition code_request :: "string \<Rightarrow> CheckInRequest" where
  "code_request c = \<lparr>r_booking_code = Some c, r_patient_name = None, r_phone = None,
     r_department = None, r_date = None\<rparr>"

definition fields_request :: "string option \<Rightarrow> string \<Rightarrow> CheckInRequest" where
  "fields_request c dp = \<lparr>r_booking_code = c, r_patient_name = Some ''Ada'',
     r_phone = Some ''555'', r_department = Some dp, r_date = Some ''2024-05-01''\<rparr>"

definition demo_store :: "nat \<Rightarrow> store" where
  "demo_store n = \<lparr>docs = map demo_doc [0..<n], next_id = n\<rparr>"

section \<open>Properties\<close>

lemma matches_dept_date:
  "matches (empty_query\<lparr>q_department := Some dp, q_date := Some dt\<rparr>) d
     \<longleftrightarrow> department d = dp \<and> date d = dt"
  by (simp add: matches_def empty_query_def cond_def)

lemma filter_dept_date:
  "filter (matches (empty_query\<lparr>q_department := Some dp, q_date := Some dt\<rparr>)) ds =
     filter (\<lambda>d. department d = dp \<and> date d = dt) ds"
  by (rule filter_cong) (simp_all add: matches_dept_date)

lemma count_booked_for_eq:
  "count_booked_for db dp dt =
     int (length (filter (\<lambda>d. department d = dp \<and> date d = dt) (persisted db)))"
  by (cases db)
     (simp_all add: count_booked_for_def aggregate_match_count_def find_docs_def
        persisted_def Let_def filter_dept_date)

lemma py_round_of_int: "py_round (of_int n) = n"
  by (simp add: py_round_def)

lemma used_pct_of_eq: "used_pct_of b = 4 * b"
proof -
  have "(of_int b / of_int 25) * (100::rat) = of_int (4 * b)" by simp
  then show ?thesis
    unfolding used_pct_of_def DEPARTMENT_CAPACITY_def
    by (simp only: py_round_of_int) simp
qed


lemma count_booked_for_Some: "count_booked_for (Some s) dp dt = int (booked_count s dp dt)"
  by (simp add: count_booked_for_eq persisted_def booked_count_def)

subsection \<open>Sample data and formatting\<close>

declare dec.simps [simp del]

lemma booked_count_demo: "booked_count (demo_store n) ''Cardiology'' ''2024-05-01'' = n"
  by (simp add: booked_count_def demo_store_def demo_doc_def filter_map o_def)

lemma demo_filter_length:
  "length (filter (\<lambda>d. department d = ''Cardiology'' \<and> date d = ''2024-05-01'')
     (persisted (Some (demo_store n)))) = n"
  using booked_count_demo [of n] by (simp add: booked_count_def persisted_def)

lemma py_round_12: "py_round 12 = 12"
  using py_round_of_int [of 12] by simp

lemma digit_char_0: "digit_char 0 = CHR ''0''"
  by code_simp

lemma dec_lt10: "n < 10 \<Longrightarrow> dec n = [digit_char n]"
  by (simp add: dec.simps)

lemma dec_lt100: "10 \<le> n \<Longrightarrow> n < 100 \<Longrightarrow> dec n = [digit_char (n div 10), digit_char (n mod 10)]"
  by (subst dec.simps) (simp add: dec_lt10)

lemma dec_lt1000:
  "100 \<le> n \<Longrightarrow> n < 1000 \<Longrightarrow>
   dec n = [digit_char (n div 100), digit_char (n div 10 mod 10), digit_char (n mod 10)]"
  by (subst dec.simps) (simp add: dec_lt100 div_mult2_eq [symmetric])

lemma format_0d_three:
  assumes "n < 1000"
  shows "format_0d 3 (int n) = three_digits n"
proof -
  consider "n < 10" | "10 \<le> n" "n < 100" | "100 \<le> n" "n < 1000"
    using assms by linarith
  then show ?thesis
  proof cases
    case 1
    then show ?thesis
      by (simp add: format_0d_def zfill_def dec_lt10 three_digits_def digit_char_0
          numeral_3_eq_3)
  next
    case 2
    then show ?thesis
      by (simp add: format_0d_def zfill_def dec_lt100 three_digits_def digit_char_0)
  next
    case 3
    then show ?thesis
      by (simp add: format_0d_def zfill_def dec_lt1000 three_digits_def)
  qed
qed

lemma date_pattern_demo: "date_pattern ''2024-05-01''"
  by code_simp

lemma date_pattern_impossible: "date_pattern ''2024-02-31''"
  by code_simp

lemma date_pattern_short: "\<not> date_pattern ''2024-2-31''"
  by code_simp

lemma upper_Car: "upper ''Car'' = ''CAR''"
  by code_simp

lemma remove_dashes_demo: "remove_dashes ''2024-05-01'' = ''20240501''"
  by code_simp

lemma demo_payload_simps:
  "c_department demo_payload = ''Cardiology''" "c_date demo_payload = ''2024-05-01''"
  "c_patient_name demo_payload = ''Ada''" "c_email demo_payload = None"
  "c_phone demo_payload = ''555''" "c_time_slot demo_payload = None"
  by (simp_all add: demo_payload_def)

lemma demo_payload_ok:
  "c_department demo_payload \<in> set DEPARTMENTS" "name_email_ok ve demo_payload"
  "date_pattern (c_date demo_payload)"
  by (simp_all add: demo_payload_simps DEPARTMENTS_def name_email_ok_def date_pattern_demo)

lemma new_document_demo: "new_document ve (demo_store n) demo_payload = demo_doc n"
  by (simp add: new_document_def demo_doc_def booked_count_demo demo_payload_simps
      upper_Car remove_dashes_demo stored_email_def)
     (simp add: demo_store_def)

lemma demo_store_Suc:
  "\<lparr>docs = docs (demo_store n) @ [new_document ve (demo_store n) demo_payload],
    next_id = Suc (next_id (demo_store n))\<rparr> = demo_store (Suc n)"
  by (simp add: new_document_demo) (simp add: demo_store_def)


subsection \<open>Availability\<close>

text \<open>
  Claim C4. For a department of the registry and any date string, \<^verbatim>\<open>get_availability\<close>
  succeeds; \<open>booked\<close> is the number of persisted appointments whose department and date
  are equal to the inputs, \<open>remaining\<close> is \<open>max 0 (25 - booked)\<close>, \<open>used_pct\<close> is
  \<open>round (booked / 25 * 100)\<close>, and so \<open>remaining + booked = 25\<close> when \<open>booked \<le> 25\<close> and
  \<open>remaining = 0\<close> otherwise. The quotient is exact here, where the source computes it in
  floating point; the two agree for every count below \<open>2 ^ 49\<close>.
\<close>

theorem get_availability_metrics:
  assumes "dept \<in> set DEPARTMENTS"
  shows "\<exists>r. get_availability db dept dt = Inr r \<and>
     av_booked r =
       int (length (filter (\<lambda>d. department d = dept \<and> date d = dt) (persisted db))) \<and>
     av_remaining r = max 0 (25 - av_booked r) \<and>
     av_used_pct r = py_round (of_int (av_booked r) / 25 * 100) \<and>
     av_remaining r + av_booked r = (if av_booked r \<le> 25 then 25 else av_booked r) \<and>
     av_remaining r = (if av_booked r \<le> 25 then 25 - av_booked r else 0)"
  using assms
  by (simp add: get_availability_def Let_def count_booked_for_eq used_pct_of_def
      DEPARTMENT_CAPACITY_def)

theorem get_availability_metrics_witness:
  "''Cardiology'' \<in> set DEPARTMENTS \<and>
   (\<exists>r. get_availability (Some (demo_store 3)) ''Cardiology'' ''2024-05-01'' = Inr r \<and>
        av_booked r = 3 \<and> av_remaining r = 22 \<and> av_used_pct r = 12)"
proof -
  have d: "''Cardiology'' \<in> set DEPARTMENTS" by (simp add: DEPARTMENTS_def)
  from get_availability_metrics [OF d, of "Some (demo_store 3)" "''2024-05-01''"]
  obtain r where r: "get_availability (Some (demo_store 3)) ''Cardiology'' ''2024-05-01'' = Inr r"
    "av_booked r = 3" "av_remaining r = max 0 (25 - av_booked r)"
    "av_used_pct r = py_round (of_int (av_booked r) / 25 * 100)"
    by (auto simp: demo_filter_length)
  then have "av_remaining r = 22" "av_used_pct r = 12"
    by (simp_all add: py_round_12)
  with d r show ?thesis by blast
qed

subsection \<open>Booking\<close>

lemma new_Appointment_ok:
  assumes "2 \<le> length (patient_name a)" "department a \<in> set DEPARTMENTS"
    "date_pattern (date a)" "status a = ''booked''"
    "case email a of None \<Rightarrow> True | Some e \<Rightarrow> ve e \<noteq> None"
  shows "new_Appointment ve a = Inr (a\<lparr>email := stored_email ve (email a)\<rparr>)"
  using assms by (auto simp: new_Appointment_def stored_email_def split: option.splits)

lemma new_Appointment_bad_date:
  "\<not> date_pattern (date a) \<Longrightarrow> department a \<in> set DEPARTMENTS \<Longrightarrow>
   new_Appointment ve a = Inl ValidationError"
  by (simp add: new_Appointment_def)

lemma create_appointment_full:
  assumes "c_department p \<in> set DEPARTMENTS"
    and "DEPARTMENT_CAPACITY \<le> int (booked_count s (c_department p) (c_date p))"
  shows "create_appointment ve (Some s) p = (Inl CapacityExceeded, Some s)"
  using assms by (simp add: create_appointment_def count_booked_for_Some)

lemma create_appointment_success:
  assumes "c_department p \<in> set DEPARTMENTS"
    and "int (booked_count s (c_department p) (c_date p)) < DEPARTMENT_CAPACITY"
    and "name_email_ok ve p" and "date_pattern (c_date p)"
  shows "create_appointment ve (Some s) p =
     (Inr \<lparr>cr_id = next_id s,
           cr_booking_code = upper (take 3 (c_department p)) @ remove_dashes (c_date p) @ ''-'' @
             format_0d 3 (int (booked_count s (c_department p) (c_date p)) + 1),
           cr_status = ''booked''\<rparr>,
      Some \<lparr>docs = docs s @ [new_document ve s p], next_id = Suc (next_id s)\<rparr>)"
proof -
  let ?a = "\<lparr>patient_name = c_patient_name p, phone = c_phone p, email = c_email p,
      department = c_department p, date = c_date p, time_slot = c_time_slot p,
      status = ''booked'',
      booking_code = Some (upper (take 3 (c_department p)) @ remove_dashes (c_date p) @ ''-'' @
         format_0d 3 (int (booked_count s (c_department p) (c_date p)) + 1))\<rparr>"
  have "new_Appointment ve ?a = Inr (?a\<lparr>email := stored_email ve (email ?a)\<rparr>)"
    using assms by (intro new_Appointment_ok) (simp_all add: name_email_ok_def)
  then show ?thesis
    using assms(1,2)
    by (simp add: create_appointment_def count_booked_for_Some
        Let_def create_document_def insert_one_def new_document_def
        Appointment.extend_def document.fields_def)
qed

lemma create_appointment_failure:
  "create_appointment ve db p = (Inl e, db') \<Longrightarrow> db' = db"
  by (cases db)
     (auto simp: create_appointment_def Let_def create_document_def insert_one_def
        split: if_splits sum.splits prod.splits)

lemma create_appointment_Inr:
  assumes "create_appointment ve db p = (Inr r, db')"
  shows "c_department p \<in> set DEPARTMENTS \<and> count_booked_for db (c_department p) (c_date p) < DEPARTMENT_CAPACITY \<and>
    cr_booking_code r = upper (take 3 (c_department p)) @ remove_dashes (c_date p) @ ''-'' @
             format_0d 3 (count_booked_for db (c_department p) (c_date p) + 1) \<and>
    cr_status r = ''booked'' \<and>
    (\<exists>s a. db = Some s \<and> db' = Some \<lparr>docs = docs s @ [Appointment.extend a (document.fields (next_id s) None)], next_id = Suc (next_id s)\<rparr> \<and>
       cr_id r = next_id s \<and> status a = ''booked'' \<and> booking_code a = Some (cr_booking_code r) \<and>
       department a = c_department p \<and> date a = c_date p \<and> date_pattern (date a))"
  using assms
  by (cases db)
     (auto simp: create_appointment_def Let_def create_document_def insert_one_def
        new_Appointment_def
        split: if_splits sum.splits prod.splits option.splits)

text \<open>
  Claim C1. For a department of the registry: when the number of persisted appointments of
  the department on the date has reached the capacity (25), \<^verbatim>\<open>create_appointment\<close> fails
  with \<open>CapacityExceeded\<close> and the store is unchanged; when it is below the capacity and
  the rest of the input is valid, it succeeds and appends one appointment.
\<close>

theorem create_appointment_capacity:
  assumes "c_department p \<in> set DEPARTMENTS"
  shows "DEPARTMENT_CAPACITY = 25 \<and>
    (25 \<le> booked_count s (c_department p) (c_date p) \<longrightarrow>
       create_appointment ve (Some s) p = (Inl CapacityExceeded, Some s)) \<and>
    (booked_count s (c_department p) (c_date p) < 25 \<and> name_email_ok ve p \<and>
     date_pattern (c_date p) \<longrightarrow>
       (\<exists>r. create_appointment ve (Some s) p =
          (Inr r, Some \<lparr>docs = docs s @ [new_document ve s p], next_id = Suc (next_id s)\<rparr>) \<and>
          cr_status r = ''booked''))"
proof (intro conjI impI)
  show "DEPARTMENT_CAPACITY = 25" by (simp add: DEPARTMENT_CAPACITY_def)
next
  assume "25 \<le> booked_count s (c_department p) (c_date p)"
  then show "create_appointment ve (Some s) p = (Inl CapacityExceeded, Some s)"
    using assms by (intro create_appointment_full) (simp_all add: DEPARTMENT_CAPACITY_def)
next
  assume a: "booked_count s (c_department p) (c_date p) < 25 \<and> name_email_ok ve p \<and>
     date_pattern (c_date p)"
  then have "int (booked_count s (c_department p) (c_date p)) < DEPARTMENT_CAPACITY"
    by (simp add: DEPARTMENT_CAPACITY_def)
  from create_appointment_success [OF assms this] a
  show "\<exists>r. create_appointment ve (Some s) p =
          (Inr r, Some \<lparr>docs = docs s @ [new_document ve s p], next_id = Suc (next_id s)\<rparr>) \<and>
          cr_status r = ''booked''"
    by simp
qed

theorem create_appointment_capacity_witness:
  "c_department demo_payload \<in> set DEPARTMENTS \<and>
   booked_count (demo_store 24) ''Cardiology'' ''2024-05-01'' = 24 \<and>
   (\<exists>r. create_appointment Some (Some (demo_store 24)) demo_payload =
      (Inr r, Some (demo_store 25))) \<and>
   booked_count (demo_store 25) ''Cardiology'' ''2024-05-01'' = 25 \<and>
   create_appointment Some (Some (demo_store 25)) demo_payload =
      (Inl CapacityExceeded, Some (demo_store 25))"
proof -
  have d: "c_department demo_payload \<in> set DEPARTMENTS" by (rule demo_payload_ok)
  have "\<exists>r. create_appointment Some (Some (demo_store 24)) demo_payload =
      (Inr r, Some (demo_store 25))"
    using create_appointment_capacity [OF d, of "demo_store 24" Some]
      demo_store_Suc [of 24 Some]
    by (auto simp: demo_payload_simps booked_count_demo demo_payload_ok date_pattern_demo)
  moreover have "create_appointment Some (Some (demo_store 25)) demo_payload =
      (Inl CapacityExceeded, Some (demo_store 25))"
    using create_appointment_capacity [OF d, of "demo_store 25" Some]
    by (simp add: demo_payload_simps booked_count_demo)
  ultimately show ?thesis using d by (simp add: booked_count_demo)
qed

text \<open>
  Claim C2. The booking code that a successful \<^verbatim>\<open>create_appointment\<close> returns is the
  upper-case first three characters of the department, the date without dashes, a dash,
  and the three-digit, zero-padded value of one plus the number of appointments of the
  department on the date at the time of the read; the stored appointment carries the same
  code.
\<close>

theorem booking_code_format:
  assumes "create_appointment ve db p = (Inr r, db')"
  shows "cr_booking_code r =
      spec_booking_code (c_department p) (c_date p)
        (Suc (length (filter (\<lambda>d. department d = c_department p \<and> date d = c_date p)
           (persisted db)))) \<and>
    booking_code (last (persisted db')) = Some (cr_booking_code r)"
proof -
  let ?n = "length (filter (\<lambda>d. department d = c_department p \<and> date d = c_date p)
           (persisted db))"
  from create_appointment_Inr [OF assms]
  have lt: "count_booked_for db (c_department p) (c_date p) < DEPARTMENT_CAPACITY"
    and code: "cr_booking_code r = upper (take 3 (c_department p)) @ remove_dashes (c_date p) @ ''-'' @
             format_0d 3 (count_booked_for db (c_department p) (c_date p) + 1)"
    and st: "\<exists>s a. db = Some s \<and> db' = Some \<lparr>docs = docs s @ [Appointment.extend a (document.fields (next_id s) None)], next_id = Suc (next_id s)\<rparr> \<and>
       cr_id r = next_id s \<and> status a = ''booked'' \<and> booking_code a = Some (cr_booking_code r) \<and>
       department a = c_department p \<and> date a = c_date p \<and> date_pattern (date a)"
    by blast+
  have c: "count_booked_for db (c_department p) (c_date p) = int ?n"
    by (rule count_booked_for_eq)
  with lt have "Suc ?n < 1000" by (simp add: DEPARTMENT_CAPACITY_def)
  from format_0d_three [OF this] have "format_0d 3 (int ?n + 1) = three_digits (Suc ?n)"
    by (simp add: add.commute)
  with code c have "cr_booking_code r = spec_booking_code (c_department p) (c_date p) (Suc ?n)"
    by (simp add: spec_booking_code_def)
  moreover from st have "booking_code (last (persisted db')) = Some (cr_booking_code r)"
    by (auto simp: persisted_def Appointment.extend_def document.fields_def)
  ultimately show ?thesis by simp
qed

lemma three_digits_1: "three_digits (Suc 0) = ''001''"
  by code_simp

lemma three_digits_2: "three_digits (Suc (Suc 0)) = ''002''"
  by code_simp

theorem booking_code_format_witness:
  "(\<exists>r. create_appointment Some (Some (demo_store 0)) demo_payload = (Inr r, Some (demo_store 1)) \<and>
     cr_booking_code r = ''CAR20240501-001'') \<and>
   (\<exists>r. create_appointment Some (Some (demo_store 1)) demo_payload = (Inr r, Some (demo_store 2)) \<and>
     cr_booking_code r = ''CAR20240501-002'')"
proof -
  have d: "c_department demo_payload \<in> set DEPARTMENTS" by (rule demo_payload_ok)
  have s: "\<And>n. int (booked_count (demo_store n) (c_department demo_payload) (c_date demo_payload)) < DEPARTMENT_CAPACITY \<longleftrightarrow> n < 25"
    by (simp add: demo_payload_simps booked_count_demo DEPARTMENT_CAPACITY_def)
  have ex: "\<And>n. n < 25 \<Longrightarrow> \<exists>r. create_appointment Some (Some (demo_store n)) demo_payload = (Inr r, Some (demo_store (Suc n)))"
    using create_appointment_success [OF d _ demo_payload_ok(2,3), of "demo_store _" Some]
    by (simp add: s demo_store_Suc)
  from ex [of 0] obtain r0 where r0: "create_appointment Some (Some (demo_store 0)) demo_payload = (Inr r0, Some (demo_store 1))"
    by auto
  from ex [of 1] obtain r1 where r1: "create_appointment Some (Some (demo_store 1)) demo_payload = (Inr r1, Some (demo_store 2))"
    by (auto simp: numeral_2_eq_2)
  from booking_code_format [OF r0] have "cr_booking_code r0 = ''CAR20240501-001''"
    by (simp add: demo_filter_length spec_booking_code_def demo_payload_simps upper_Car
        remove_dashes_demo three_digits_1)
  moreover from booking_code_format [OF r1] have "cr_booking_code r1 = ''CAR20240501-002''"
    by (simp add: demo_filter_length spec_booking_code_def demo_payload_simps upper_Car
        remove_dashes_demo three_digits_2)
  ultimately show ?thesis using r0 r1 by blast
qed

text \<open>
  Claim C7. A booking whose date does not match \<^verbatim>\<open>^\d{4}-\d{2}-\d{2}$\<close> always fails
  and leaves the store unchanged; the failure is the validation error of the
  \<^verbatim>\<open>Appointment\<close> model unless the department check or the capacity check, which run
  first on the malformed string, has already failed. A date that matches the pattern is
  accepted without any calendar check.
\<close>

theorem create_appointment_date_pattern:
  "(\<not> date_pattern (c_date p) \<longrightarrow>
      create_appointment ve db p =
        (Inl (if c_department p \<notin> set DEPARTMENTS then InvalidDepartment
              else if DEPARTMENT_CAPACITY \<le> count_booked_for db (c_department p) (c_date p)
              then CapacityExceeded else ValidationError), db)) \<and>
   (date_pattern (c_date p) \<and> c_department p \<in> set DEPARTMENTS \<and>
    booked_count s (c_department p) (c_date p) < 25 \<and> name_email_ok ve p \<longrightarrow>
      (\<exists>r. create_appointment ve (Some s) p =
         (Inr r, Some \<lparr>docs = docs s @ [new_document ve s p], next_id = Suc (next_id s)\<rparr>) \<and>
         date (new_document ve s p) = c_date p))"
proof (intro conjI impI)
  assume "\<not> date_pattern (c_date p)"
  then show "create_appointment ve db p =
        (Inl (if c_department p \<notin> set DEPARTMENTS then InvalidDepartment
              else if DEPARTMENT_CAPACITY \<le> count_booked_for db (c_department p) (c_date p)
              then CapacityExceeded else ValidationError), db)"
    by (simp add: create_appointment_def new_Appointment_def Let_def)
next
  assume a: "date_pattern (c_date p) \<and> c_department p \<in> set DEPARTMENTS \<and>
    booked_count s (c_department p) (c_date p) < 25 \<and> name_email_ok ve p"
  then have "int (booked_count s (c_department p) (c_date p)) < DEPARTMENT_CAPACITY"
    by (simp add: DEPARTMENT_CAPACITY_def)
  with a create_appointment_success [of p s ve]
  show "\<exists>r. create_appointment ve (Some s) p =
         (Inr r, Some \<lparr>docs = docs s @ [new_document ve s p], next_id = Suc (next_id s)\<rparr>) \<and>
         date (new_document ve s p) = c_date p"
    by (simp add: new_document_def)
qed

lemma booked_count_empty: "booked_count empty_store dp dt = 0"
  by (simp add: booked_count_def empty_store_def)

theorem create_appointment_date_pattern_witness:
  "\<not> date_pattern ''2024-2-31'' \<and>
   create_appointment Some (Some empty_store) (demo_payload\<lparr>c_date := ''2024-2-31''\<rparr>) =
     (Inl ValidationError, Some empty_store) \<and>
   date_pattern ''2024-02-31'' \<and>
   (\<exists>r. create_appointment Some (Some empty_store) (demo_payload\<lparr>c_date := ''2024-02-31''\<rparr>) =
     (Inr r, Some \<lparr>docs = [new_document Some empty_store (demo_payload\<lparr>c_date := ''2024-02-31''\<rparr>)],
                   next_id = 1\<rparr>))"
proof -
  have d: "''Cardiology'' \<in> set DEPARTMENTS" by (simp add: DEPARTMENTS_def)
  have c: "count_booked_for (Some empty_store) dp dt = 0" for dp dt
    by (simp add: count_booked_for_Some booked_count_empty)
  have "create_appointment Some (Some empty_store) (demo_payload\<lparr>c_date := ''2024-2-31''\<rparr>) =
     (Inl ValidationError, Some empty_store)"
    using create_appointment_date_pattern
      [of "demo_payload\<lparr>c_date := ''2024-2-31''\<rparr>" Some "Some empty_store"] d
    by (simp add: date_pattern_short demo_payload_simps c DEPARTMENT_CAPACITY_def)
  moreover have "\<exists>r. create_appointment Some (Some empty_store) (demo_payload\<lparr>c_date := ''2024-02-31''\<rparr>) =
     (Inr r, Some \<lparr>docs = [new_document Some empty_store (demo_payload\<lparr>c_date := ''2024-02-31''\<rparr>)],
                   next_id = 1\<rparr>)"
    using create_appointment_date_pattern
      [of "demo_payload\<lparr>c_date := ''2024-02-31''\<rparr>" Some _ empty_store] d
    by (simp add: date_pattern_impossible demo_payload_simps booked_count_empty
        name_email_ok_def)
       (auto simp: empty_store_def)
  ultimately show ?thesis
    by (simp add: date_pattern_short date_pattern_impossible)
qed

subsection \<open>Check-in\<close>

lemma matches_by_code:
  "matches (empty_query\<lparr>q_booking_code := Some c\<rparr>) d \<longleftrightarrow> booking_code d = Some c"
  by (simp add: matches_def empty_query_def cond_def)

lemma matches_by_id:
  "matches (empty_query\<lparr>q_id := Some i\<rparr>) d \<longleftrightarrow> doc_id d = i"
  by (simp add: matches_def empty_query_def cond_def)

lemma matches_by_fields:
  "matches (empty_query\<lparr>q_patient_name := Some a, q_phone := Some b,
      q_department := Some c, q_date := Some e\<rparr>) d \<longleftrightarrow>
   patient_name d = a \<and> phone d = b \<and> department d = c \<and> date d = e"
  by (simp add: matches_def empty_query_def cond_def)

lemma matches_mark: "matches q (mark_checked_in now d) = matches q d"
  by (simp add: matches_def mark_checked_in_def split: option.splits)

lemma check_in_query_code:
  "truthy (r_booking_code rq) \<Longrightarrow>
   check_in_query rq = Inr (empty_query\<lparr>q_booking_code := r_booking_code rq\<rparr>) \<and>
   matches (empty_query\<lparr>q_booking_code := r_booking_code rq\<rparr>) = by_code rq"
  by (auto simp: check_in_query_def truthy_def by_code_def matches_by_code fun_eq_iff
      split: option.splits)

lemma check_in_query_missing:
  "\<not> truthy (r_booking_code rq) \<Longrightarrow>
   \<not> (truthy (r_patient_name rq) \<and> truthy (r_phone rq) \<and> truthy (r_department rq) \<and>
      truthy (r_date rq)) \<Longrightarrow>
   check_in_query rq = Inl MissingCheckInFields"
  by (auto simp: check_in_query_def)

lemma check_in_query_fields:
  assumes "\<not> truthy (r_booking_code rq)" "truthy (r_patient_name rq)" "truthy (r_phone rq)"
    "truthy (r_department rq)" "truthy (r_date rq)"
  shows "\<exists>q. check_in_query rq = Inr q \<and> matches q = by_fields rq"
proof -
  from assms obtain a b c e where v: "r_patient_name rq = Some a" "r_phone rq = Some b"
    "r_department rq = Some c" "r_date rq = Some e"
    by (auto simp: truthy_def split: option.splits)
  have "matches (empty_query\<lparr>q_patient_name := Some a, q_phone := Some b,
      q_department := Some c, q_date := Some e\<rparr>) = by_fields rq"
    by (auto simp: fun_eq_iff matches_by_fields by_fields_def v)
  with assms v show ?thesis
    by (simp add: check_in_query_def)
qed

lemma check_in_found:
  assumes "check_in_query rq = Inr q" "List.find (matches q) (docs s) = Some a"
  shows "check_in now (Some s) rq =
    (Inr (checked_in_response a),
     if status a = ''checked_in'' then Some s
     else Some (update_one (empty_query\<lparr>q_id := Some (doc_id a)\<rparr>) (mark_checked_in now) s))"
  using assms by (simp add: check_in_def find_one_def checked_in_response_def)

lemma check_in_not_found:
  assumes "check_in_query rq = Inr q" "List.find (matches q) (docs s) = None"
  shows "check_in now (Some s) rq = (Inl AppointmentNotFound, Some s)"
  using assms by (simp add: check_in_def find_one_def)

lemma check_in_failure: "check_in now db rq = (Inl e, db') \<Longrightarrow> db' = db"
  by (auto simp: check_in_def split: option.splits sum.splits if_splits)

lemma demo_doc_0:
  "demo_doc 0 =
     \<lparr>patient_name = ''Ada'', phone = ''555'', email = None,
      department = ''Cardiology'', date = ''2024-05-01'', time_slot = None,
      status = ''booked'', booking_code = Some ''CAR20240501-001'',
      doc_id = 0, checked_in_at = None\<rparr>"
  using format_0d_three [of "Suc 0"] by (simp add: demo_doc_def three_digits_1)

lemma demo_store_1: "demo_store (Suc 0) = \<lparr>docs = [demo_doc 0], next_id = Suc 0\<rparr>"
  by (simp add: demo_store_def)

lemma check_in_handler_lookup:
  "(truthy (r_booking_code rq) \<longrightarrow>
      (case List.find (by_code rq) (docs s) of
         None \<Rightarrow> check_in now (Some s) rq = (Inl AppointmentNotFound, Some s)
       | Some a \<Rightarrow> fst (check_in now (Some s) rq) = Inr (checked_in_response a))) \<and>
   (\<not> truthy (r_booking_code rq) \<and>
    \<not> (truthy (r_patient_name rq) \<and> truthy (r_phone rq) \<and> truthy (r_department rq) \<and>
       truthy (r_date rq)) \<longrightarrow>
      check_in now (Some s) rq = (Inl MissingCheckInFields, Some s)) \<and>
   (\<not> truthy (r_booking_code rq) \<and>
    truthy (r_patient_name rq) \<and> truthy (r_phone rq) \<and> truthy (r_department rq) \<and>
    truthy (r_date rq) \<longrightarrow>
      (case List.find (by_fields rq) (docs s) of
         None \<Rightarrow> check_in now (Some s) rq = (Inl AppointmentNotFound, Some s)
       | Some a \<Rightarrow> fst (check_in now (Some s) rq) = Inr (checked_in_response a)))"
proof (intro conjI impI)
  assume t: "truthy (r_booking_code rq)"
  from check_in_query_code [OF t]
  have q: "check_in_query rq = Inr (empty_query\<lparr>q_booking_code := r_booking_code rq\<rparr>)"
    and m: "matches (empty_query\<lparr>q_booking_code := r_booking_code rq\<rparr>) = by_code rq"
    by simp_all
  show "case List.find (by_code rq) (docs s) of
         None \<Rightarrow> check_in now (Some s) rq = (Inl AppointmentNotFound, Some s)
       | Some a \<Rightarrow> fst (check_in now (Some s) rq) = Inr (checked_in_response a)"
    using check_in_found [OF q, of s _ now] check_in_not_found [OF q, of s now]
    by (simp add: m split: option.splits)
next
  assume "\<not> truthy (r_booking_code rq) \<and>
    \<not> (truthy (r_patient_name rq) \<and> truthy (r_phone rq) \<and> truthy (r_department rq) \<and>
       truthy (r_date rq))"
  then have "check_in_query rq = Inl MissingCheckInFields"
    using check_in_query_missing [of rq] by blast
  then show "check_in now (Some s) rq = (Inl MissingCheckInFields, Some s)"
    by (simp add: check_in_def)
next
  assume "\<not> truthy (r_booking_code rq) \<and>
    truthy (r_patient_name rq) \<and> truthy (r_phone rq) \<and> truthy (r_department rq) \<and>
    truthy (r_date rq)"
  then obtain q where q: "check_in_query rq = Inr q" and m: "matches q = by_fields rq"
    using check_in_query_fields [of rq] by blast
  show "case List.find (by_fields rq) (docs s) of
         None \<Rightarrow> check_in now (Some s) rq = (Inl AppointmentNotFound, Some s)
       | Some a \<Rightarrow> fst (check_in now (Some s) rq) = Inr (checked_in_response a)"
    using check_in_found [OF q, of s _ now] check_in_not_found [OF q, of s now]
    by (simp add: m split: option.splits)
qed

lemma valid_department_truthy:
  "valid_CheckInRequest rq \<Longrightarrow> truthy (r_department rq) \<longleftrightarrow> r_department rq \<noteq> None"
  by (auto simp: valid_CheckInRequest_def truthy_def DEPARTMENTS_def split: option.splits)

lemma post_checkin_failure: "post_checkin now db rq = (Inl e, db') \<Longrightarrow> db' = db"
  by (auto simp: post_checkin_def dest: check_in_failure split: if_splits)

text \<open>
  Claim C5, amended. A check-in request that has passed the validation of its body (its
  department, when present, is a department of the registry) is resolved as follows. If
  the booking code is present and not the empty string, the target is the first stored
  appointment with that booking code, whatever the other fields of the request are.
  Otherwise name, phone, department and date must all be present, and name, phone and
  date not the empty string, or the call fails with \<open>MissingCheckInFields\<close>; the target is
  then the first stored appointment equal to the request on all four. Without a target the
  call fails with \<open>AppointmentNotFound\<close>, and every failure leaves the store unchanged.
\<close>

theorem check_in_lookup:
  "(valid_CheckInRequest rq \<and> truthy (r_booking_code rq) \<longrightarrow>
      (case List.find (by_code rq) (docs s) of
         None \<Rightarrow> post_checkin now (Some s) rq = (Inl AppointmentNotFound, Some s)
       | Some a \<Rightarrow> fst (post_checkin now (Some s) rq) = Inr (checked_in_response a))) \<and>
   (valid_CheckInRequest rq \<and> \<not> truthy (r_booking_code rq) \<and>
    (\<not> truthy (r_patient_name rq) \<or> \<not> truthy (r_phone rq) \<or> r_department rq = None \<or>
     \<not> truthy (r_date rq)) \<longrightarrow>
      post_checkin now (Some s) rq = (Inl MissingCheckInFields, Some s)) \<and>
   (valid_CheckInRequest rq \<and> \<not> truthy (r_booking_code rq) \<and>
    truthy (r_patient_name rq) \<and> truthy (r_phone rq) \<and> r_department rq \<noteq> None \<and>
    truthy (r_date rq) \<longrightarrow>
      (case List.find (by_fields rq) (docs s) of
         None \<Rightarrow> post_checkin now (Some s) rq = (Inl AppointmentNotFound, Some s)
       | Some a \<Rightarrow> fst (post_checkin now (Some s) rq) = Inr (checked_in_response a))) \<and>
   (\<forall>e db'. post_checkin now db rq = (Inl e, db') \<longrightarrow> db' = db)"
proof (intro conjI impI allI)
  assume a: "valid_CheckInRequest rq \<and> truthy (r_booking_code rq)"
  then have pc: "post_checkin now (Some s) rq = check_in now (Some s) rq"
    by (simp add: post_checkin_def)
  from a check_in_handler_lookup [where rq = rq and s = s and now = now]
  show "case List.find (by_code rq) (docs s) of
         None \<Rightarrow> post_checkin now (Some s) rq = (Inl AppointmentNotFound, Some s)
       | Some a \<Rightarrow> fst (post_checkin now (Some s) rq) = Inr (checked_in_response a)"
    unfolding pc by blast
next
  assume a: "valid_CheckInRequest rq \<and> \<not> truthy (r_booking_code rq) \<and>
    (\<not> truthy (r_patient_name rq) \<or> \<not> truthy (r_phone rq) \<or> r_department rq = None \<or>
     \<not> truthy (r_date rq))"
  then have pc: "post_checkin now (Some s) rq = check_in now (Some s) rq"
    by (simp add: post_checkin_def)
  from a have "\<not> (truthy (r_patient_name rq) \<and> truthy (r_phone rq) \<and> truthy (r_department rq) \<and>
       truthy (r_date rq))"
    using valid_department_truthy [of rq] by blast
  with a check_in_handler_lookup [where rq = rq and s = s and now = now]
  show "post_checkin now (Some s) rq = (Inl MissingCheckInFields, Some s)"
    unfolding pc by blast
next
  assume a: "valid_CheckInRequest rq \<and> \<not> truthy (r_booking_code rq) \<and>
    truthy (r_patient_name rq) \<and> truthy (r_phone rq) \<and> r_department rq \<noteq> None \<and>
    truthy (r_date rq)"
  then have pc: "post_checkin now (Some s) rq = check_in now (Some s) rq"
    by (simp add: post_checkin_def)
  from a have "truthy (r_department rq)"
    using valid_department_truthy [of rq] by blast
  with a check_in_handler_lookup [where rq = rq and s = s and now = now]
  show "case List.find (by_fields rq) (docs s) of
         None \<Rightarrow> post_checkin now (Some s) rq = (Inl AppointmentNotFound, Some s)
       | Some a \<Rightarrow> fst (post_checkin now (Some s) rq) = Inr (checked_in_response a)"
    unfolding pc by blast
next
  fix e db'
  assume "post_checkin now db rq = (Inl e, db')"
  then show "db' = db" by (rule post_checkin_failure)
qed

theorem check_in_lookup_witness:
  "valid_CheckInRequest (code_request ''CAR20240501-001'') \<and>
   truthy (r_booking_code (code_request ''CAR20240501-001'')) \<and>
   fst (post_checkin 7 (Some (demo_store (Suc 0))) (code_request ''CAR20240501-001'')) =
     Inr (checked_in_response (demo_doc 0)) \<and>
   post_checkin 7 (Some (demo_store (Suc 0))) (code_request ''XYZ'') =
     (Inl AppointmentNotFound, Some (demo_store (Suc 0))) \<and>
   post_checkin 7 (Some (demo_store (Suc 0)))
     ((fields_request None ''Cardiology'')\<lparr>r_department := None\<rparr>) =
     (Inl MissingCheckInFields, Some (demo_store (Suc 0))) \<and>
   post_checkin 7 (Some (demo_store (Suc 0)))
     ((fields_request None ''Cardiology'')\<lparr>r_phone := Some []\<rparr>) =
     (Inl MissingCheckInFields, Some (demo_store (Suc 0))) \<and>
   fst (post_checkin 7 (Some (demo_store (Suc 0))) (fields_request None ''Cardiology'')) =
     Inr (checked_in_response (demo_doc 0)) \<and>
   post_checkin 7 (Some (demo_store (Suc 0))) (fields_request None ''General'') =
     (Inl AppointmentNotFound, Some (demo_store (Suc 0)))"
proof -
  note L = check_in_lookup [where s = "demo_store (Suc 0)" and now = 7
      and db = "Some (demo_store (Suc 0))"]
  have v: "valid_CheckInRequest (code_request c)"
    "valid_CheckInRequest (fields_request None ''Cardiology'')"
    "valid_CheckInRequest (fields_request None ''General'')"
    "valid_CheckInRequest ((fields_request None ''Cardiology'')\<lparr>r_department := None\<rparr>)"
    "valid_CheckInRequest ((fields_request None ''Cardiology'')\<lparr>r_phone := Some []\<rparr>)" for c
    by (simp_all add: valid_CheckInRequest_def code_request_def fields_request_def
        DEPARTMENTS_def)
  have 1: "fst (post_checkin 7 (Some (demo_store (Suc 0))) (code_request ''CAR20240501-001'')) =
     Inr (checked_in_response (demo_doc 0))"
    using L [where rq = "code_request ''CAR20240501-001''"] v(1) [of "''CAR20240501-001''"]
    by (simp add: code_request_def truthy_def demo_store_1 by_code_def demo_doc_0)
  have 2: "post_checkin 7 (Some (demo_store (Suc 0))) (code_request ''XYZ'') =
     (Inl AppointmentNotFound, Some (demo_store (Suc 0)))"
    using L [where rq = "code_request ''XYZ''"] v(1) [of "''XYZ''"]
    by (simp add: code_request_def truthy_def demo_store_1 by_code_def demo_doc_0)
  have 3: "post_checkin 7 (Some (demo_store (Suc 0)))
     ((fields_request None ''Cardiology'')\<lparr>r_department := None\<rparr>) =
     (Inl MissingCheckInFields, Some (demo_store (Suc 0)))"
    using L [where rq = "(fields_request None ''Cardiology'')\<lparr>r_department := None\<rparr>"] v(4)
    by (simp add: fields_request_def truthy_def)
  have 4: "post_checkin 7 (Some (demo_store (Suc 0)))
     ((fields_request None ''Cardiology'')\<lparr>r_phone := Some []\<rparr>) =
     (Inl MissingCheckInFields, Some (demo_store (Suc 0)))"
    using L [where rq = "(fields_request None ''Cardiology'')\<lparr>r_phone := Some []\<rparr>"] v(5)
    by (simp add: fields_request_def truthy_def)
  have 5: "fst (post_checkin 7 (Some (demo_store (Suc 0))) (fields_request None ''Cardiology'')) =
     Inr (checked_in_response (demo_doc 0))"
    using L [where rq = "fields_request None ''Cardiology''"] v(2)
    by (simp add: fields_request_def truthy_def demo_store_1 by_fields_def demo_doc_0)
  have 6: "post_checkin 7 (Some (demo_store (Suc 0))) (fields_request None ''General'') =
     (Inl AppointmentNotFound, Some (demo_store (Suc 0)))"
    using L [where rq = "fields_request None ''General''"] v(3)
    by (simp add: fields_request_def truthy_def demo_store_1 by_fields_def demo_doc_0)
  show ?thesis using 1 2 3 4 5 6 v(1) [of "''CAR20240501-001''"]
    by (simp add: code_request_def truthy_def)
qed

text \<open>
  Claim C5 as stated fails where a field is provided but empty. The first request carries
  an empty booking code, which no stored appointment has, and is still checked in, through
  its other four fields. The second has no booking code and provides all four fields, the
  phone as the empty string: it is not matched on the four fields, it fails with
  \<open>MissingCheckInFields\<close>. Both requests pass the validation of the body.
\<close>

theorem check_in_lookup_counterexample:
  "valid_CheckInRequest (fields_request (Some []) ''Cardiology'') \<and>
   r_booking_code (fields_request (Some []) ''Cardiology'') \<noteq> None \<and>
   find_one (empty_query\<lparr>q_booking_code := r_booking_code (fields_request (Some []) ''Cardiology'')\<rparr>)
     (demo_store (Suc 0)) = None \<and>
   fst (post_checkin 7 (Some (demo_store (Suc 0))) (fields_request (Some []) ''Cardiology'')) =
     Inr \<lparr>ci_id = 0, ci_status = ''checked_in'', ci_booking_code = Some ''CAR20240501-001''\<rparr> \<and>
   valid_CheckInRequest ((fields_request None ''Cardiology'')\<lparr>r_phone := Some []\<rparr>) \<and>
   r_phone ((fields_request None ''Cardiology'')\<lparr>r_phone := Some []\<rparr>) \<noteq> None \<and>
   fst (post_checkin 7 (Some (demo_store (Suc 0)))
     ((fields_request None ''Cardiology'')\<lparr>r_phone := Some []\<rparr>)) = Inl MissingCheckInFields"
  by (simp add: fields_request_def demo_store_1 demo_doc_0 find_one_def matches_by_code
      check_in_def check_in_query_def truthy_def matches_by_fields post_checkin_def
      valid_CheckInRequest_def DEPARTMENTS_def)

text \<open>
  Claim C10, amended. \<^verbatim>\<open>check_in\<close> tests presence by truthiness. A booking code that is
  the empty string is treated exactly as an absent one. Without a booking code, a request
  whose name, phone or date is the empty string fails with \<open>MissingCheckInFields\<close>. An
  empty department never reaches that test: it is not one of the department literals, so
  the validation of the request body rejects it.
\<close>

theorem check_in_truthiness:
  "(r_booking_code rq = Some [] \<longrightarrow>
      check_in now db rq = check_in now db (rq\<lparr>r_booking_code := None\<rparr>)) \<and>
   (\<not> truthy (r_booking_code rq) \<and> valid_CheckInRequest rq \<and>
    (r_patient_name rq = Some [] \<or> r_phone rq = Some [] \<or> r_date rq = Some []) \<longrightarrow>
      post_checkin now (Some s) rq = (Inl MissingCheckInFields, Some s)) \<and>
   (r_department rq = Some [] \<longrightarrow> post_checkin now db rq = (Inl RequestValidationError, db))"
proof (intro conjI impI)
  assume "r_booking_code rq = Some []"
  then have "check_in_query rq = check_in_query (rq\<lparr>r_booking_code := None\<rparr>)"
    by (simp add: check_in_query_def truthy_def)
  then show "check_in now db rq = check_in now db (rq\<lparr>r_booking_code := None\<rparr>)"
    by (cases db) (simp_all add: check_in_def)
next
  assume a: "\<not> truthy (r_booking_code rq) \<and> valid_CheckInRequest rq \<and>
    (r_patient_name rq = Some [] \<or> r_phone rq = Some [] \<or> r_date rq = Some [])"
  then have "check_in_query rq = Inl MissingCheckInFields"
    by (intro check_in_query_missing) (auto simp: truthy_def)
  with a show "post_checkin now (Some s) rq = (Inl MissingCheckInFields, Some s)"
    by (simp add: post_checkin_def check_in_def)
next
  assume "r_department rq = Some []"
  then show "post_checkin now db rq = (Inl RequestValidationError, db)"
    by (simp add: post_checkin_def valid_CheckInRequest_def DEPARTMENTS_def)
qed

theorem check_in_truthiness_witness:
  "check_in 7 (Some (demo_store (Suc 0))) (fields_request (Some []) ''Cardiology'') =
     check_in 7 (Some (demo_store (Suc 0))) (fields_request None ''Cardiology'') \<and>
   post_checkin 7 (Some (demo_store (Suc 0)))
     ((fields_request None ''Cardiology'')\<lparr>r_phone := Some []\<rparr>) =
     (Inl MissingCheckInFields, Some (demo_store (Suc 0))) \<and>
   post_checkin 7 (Some (demo_store (Suc 0))) (fields_request None []) =
     (Inl RequestValidationError, Some (demo_store (Suc 0)))"
proof -
  note T = check_in_truthiness [where s = "demo_store (Suc 0)" and now = 7
      and db = "Some (demo_store (Suc 0))"]
  have 1: "check_in 7 (Some (demo_store (Suc 0))) (fields_request (Some []) ''Cardiology'') =
     check_in 7 (Some (demo_store (Suc 0))) (fields_request None ''Cardiology'')"
    using T [where rq = "fields_request (Some []) ''Cardiology''"]
    by (simp add: fields_request_def)
  have 2: "post_checkin 7 (Some (demo_store (Suc 0)))
     ((fields_request None ''Cardiology'')\<lparr>r_phone := Some []\<rparr>) =
     (Inl MissingCheckInFields, Some (demo_store (Suc 0)))"
    using T [where rq = "(fields_request None ''Cardiology'')\<lparr>r_phone := Some []\<rparr>"]
    by (simp add: fields_request_def truthy_def valid_CheckInRequest_def DEPARTMENTS_def)
  have 3: "post_checkin 7 (Some (demo_store (Suc 0))) (fields_request None []) =
     (Inl RequestValidationError, Some (demo_store (Suc 0)))"
    using T [where rq = "fields_request None []"]
    by (simp add: fields_request_def)
  show ?thesis using 1 2 3 by simp
qed

text \<open>
  Claim C10 as stated fails for the department: a request whose department is the empty
  string does not fail with the missing-fields error, it is rejected before the handler.
\<close>

theorem check_in_truthiness_counterexample:
  "r_department (fields_request None []) = Some [] \<and>
   fst (post_checkin 7 (Some (demo_store (Suc 0))) (fields_request None [])) \<noteq>
     Inl MissingCheckInFields"
  by (simp add: fields_request_def post_checkin_def valid_CheckInRequest_def DEPARTMENTS_def
      MissingCheckInFields_def)

subsection \<open>Idempotence of check-in\<close>

lemma find_update_first:
  assumes "List.find P ds = Some a" "distinct (map doc_id ds)"
    and "\<And>d. P (f d) = P d"
  shows "List.find P (update_first (\<lambda>d. doc_id d = doc_id a) f ds) = Some (f a)"
  using assms(1,2)
proof (induction ds)
  case Nil
  then show ?case by simp
next
  case (Cons d ds)
  show ?case
  proof (cases "P d")
    case True
    with Cons.prems have "a = d" by simp
    with True assms(3) show ?thesis by simp
  next
    case False
    with Cons.prems have f: "List.find P ds = Some a" by simp
    then have "a \<in> set ds" by (auto simp: find_Some_iff)
    with Cons.prems(2) have "doc_id d \<noteq> doc_id a" by auto
    with False f Cons show ?thesis by simp
  qed
qed

lemma update_one_by_id:
  "docs (update_one (empty_query\<lparr>q_id := Some i\<rparr>) f s) =
     update_first (\<lambda>d. doc_id d = i) f (docs s)"
proof -
  have "matches (empty_query\<lparr>q_id := Some i\<rparr>) = (\<lambda>d. doc_id d = i)"
    by (simp add: fun_eq_iff matches_by_id)
  then show ?thesis by (simp add: update_one_def)
qed

lemma checked_in_response_mark:
  "checked_in_response (mark_checked_in now a) = checked_in_response a"
  by (simp add: checked_in_response_def mark_checked_in_def)

text \<open>
  Claim C3. \<^verbatim>\<open>check_in\<close> is idempotent. When the matched appointment is already
  checked in, the call returns its state and the store is the same store; and when a call
  succeeds, the same request repeated on the resulting store succeeds with the same answer
  and writes nothing. Identifiers are unique in the store, as the document store
  guarantees.
\<close>

theorem check_in_idempotent:
  assumes "distinct (map doc_id (docs s))"
  shows "(\<forall>q a. check_in_query rq = Inr q \<and> find_one q s = Some a \<and>
            status a = ''checked_in'' \<longrightarrow>
            check_in t1 (Some s) rq = (Inr (checked_in_response a), Some s)) \<and>
         (\<forall>r db1. check_in t1 (Some s) rq = (Inr r, db1) \<longrightarrow>
            check_in t2 db1 rq = (Inr r, db1))"
proof (intro conjI allI impI)
  fix q a
  assume "check_in_query rq = Inr q \<and> find_one q s = Some a \<and> status a = ''checked_in''"
  then show "check_in t1 (Some s) rq = (Inr (checked_in_response a), Some s)"
    using check_in_found [of rq q s a t1] by (simp add: find_one_def)
next
  fix r db1
  assume c: "check_in t1 (Some s) rq = (Inr r, db1)"
  then obtain q a where q: "check_in_query rq = Inr q"
    and a: "List.find (matches q) (docs s) = Some a"
    by (auto simp: check_in_def find_one_def split: sum.splits option.splits)
  from check_in_found [OF q a, of t1] c
  have r: "r = checked_in_response a"
    and db1: "db1 = (if status a = ''checked_in'' then Some s
       else Some (update_one (empty_query\<lparr>q_id := Some (doc_id a)\<rparr>) (mark_checked_in t1) s))"
    by simp_all
  show "check_in t2 db1 rq = (Inr r, db1)"
  proof (cases "status a = ''checked_in''")
    case True
    with db1 r check_in_found [OF q a, of t2] show ?thesis by simp
  next
    case False
    let ?s1 = "update_one (empty_query\<lparr>q_id := Some (doc_id a)\<rparr>) (mark_checked_in t1) s"
    have "List.find (matches q) (docs ?s1) = Some (mark_checked_in t1 a)"
      unfolding update_one_by_id
      by (rule find_update_first [OF a assms]) (rule matches_mark)
    from check_in_found [OF q this, of t2]
    have "check_in t2 (Some ?s1) rq = (Inr (checked_in_response a), Some ?s1)"
      by (simp add: checked_in_response_mark) (simp add: mark_checked_in_def)
    with False db1 r show ?thesis by simp
  qed
qed

theorem check_in_idempotent_witness:
  "distinct (map doc_id (docs (demo_store (Suc 0)))) \<and>
   check_in 7 (Some (demo_store (Suc 0))) (code_request ''CAR20240501-001'') =
     (Inr (checked_in_response (demo_doc 0)), Some \<lparr>docs = [done_doc], next_id = Suc 0\<rparr>) \<and>
   check_in 9 (Some \<lparr>docs = [done_doc], next_id = Suc 0\<rparr>) (code_request ''CAR20240501-001'') =
     (Inr (checked_in_response (demo_doc 0)), Some \<lparr>docs = [done_doc], next_id = Suc 0\<rparr>)"
proof -
  have d: "distinct (map doc_id (docs (demo_store (Suc 0))))"
    by (simp add: demo_store_1)
  have 1: "check_in 7 (Some (demo_store (Suc 0))) (code_request ''CAR20240501-001'') =
     (Inr (checked_in_response (demo_doc 0)), Some \<lparr>docs = [done_doc], next_id = Suc 0\<rparr>)"
    by (simp add: check_in_def check_in_query_def code_request_def truthy_def find_one_def
        demo_store_1 matches_by_code matches_by_id update_one_def checked_in_response_def
        mark_checked_in_def done_doc_def)
       (simp add: demo_doc_0)
  from check_in_idempotent [OF d, of "code_request ''CAR20240501-001''" 7 9] 1
  show ?thesis using d by simp
qed

subsection \<open>Patient listing\<close>

lemma sum_list_ones: "sum_list (map (\<lambda>x. 1::int) xs) = int (length xs)"
  by (induction xs) simp_all

lemma matches_empty: "matches empty_query d"
  by (simp add: matches_def empty_query_def cond_def)

lemma matches_date: "matches (empty_query\<lparr>q_date := Some t\<rparr>) d \<longleftrightarrow> date d = t"
  by (simp add: matches_def empty_query_def cond_def)

lemma length_filter_not:
  "int (length (filter (\<lambda>x. \<not> P x) xs)) = int (length xs) - int (length (filter P xs))"
  using sum_length_filter_compl [of P xs] by simp

text \<open>
  Claim C9, amended. For every store and optional date filter, \<^verbatim>\<open>patients_tracking\<close>
  lists the projection of the appointments selected by the filter: those whose date is
  equal to the filter when a non-empty filter is given, and all appointments when the
  filter is absent or the empty string. \<open>total\<close> is their number, \<open>checked_in\<close> the
  number of those with status \<open>checked_in\<close>, \<open>booked\<close> the number with any other status,
  so \<open>total = checked_in + booked\<close>.
\<close>

theorem patients_tracking_summary:
  "\<exists>sm rows. patients_tracking (Some s) date_str = Inr (sm, rows) \<and>
     rows = map project
       (if truthy date_str then filter (\<lambda>d. Some (date d) = date_str) (docs s) else docs s) \<and>
     sm_total sm = int (length rows) \<and>
     sm_checked_in sm = int (length (filter (\<lambda>x. pt_status x = ''checked_in'') rows)) \<and>
     sm_booked sm = int (length (filter (\<lambda>x. pt_status x \<noteq> ''checked_in'') rows)) \<and>
     sm_total sm = sm_checked_in sm + sm_booked sm"
proof (cases "truthy date_str")
  case True
  then obtain t where t: "date_str = Some t" by (auto simp: truthy_def split: option.splits)
  have "matches (empty_query\<lparr>q_date := Some t\<rparr>) = (\<lambda>d. date d = t)"
    by (simp add: fun_eq_iff matches_date)
  with True t show ?thesis
    by (simp add: patients_tracking_def get_documents_def find_docs_def Let_def
        sum_list_ones length_filter_not filter_map o_def)
next
  case False
  have "matches empty_query = (\<lambda>d. True)"
    by (simp add: fun_eq_iff matches_empty)
  with False show ?thesis
    by (simp add: patients_tracking_def get_documents_def find_docs_def Let_def
        sum_list_ones length_filter_not filter_map o_def)
qed

theorem patients_tracking_summary_witness:
  "\<exists>rows. patients_tracking (Some \<lparr>docs = [done_doc], next_id = Suc 0\<rparr>) (Some ''2024-05-01'') =
     Inr (\<lparr>sm_total = 1, sm_checked_in = 1, sm_booked = 0\<rparr>, rows)"
proof -
  from patients_tracking_summary [of "\<lparr>docs = [done_doc], next_id = Suc 0\<rparr>" "Some ''2024-05-01''"]
  obtain sm rows where r:
    "patients_tracking (Some \<lparr>docs = [done_doc], next_id = Suc 0\<rparr>) (Some ''2024-05-01'') =
       Inr (sm, rows)"
    "rows = [project done_doc]" "sm_total sm = int (length rows)"
    "sm_checked_in sm = int (length (filter (\<lambda>x. pt_status x = ''checked_in'') rows))"
    "sm_booked sm = int (length (filter (\<lambda>x. pt_status x \<noteq> ''checked_in'') rows))"
    by (auto simp: truthy_def done_doc_def demo_doc_0)
  then have "sm = \<lparr>sm_total = 1, sm_checked_in = 1, sm_booked = 0\<rparr>"
    by (simp add: project_def done_doc_def)
  with r(1) show ?thesis by blast
qed

text \<open>
  Claim C9 as stated fails for a date filter that is given but empty: no stored
  appointment has the date \<open>''''\<close>, and the listing still returns the stored appointment.
\<close>

theorem patients_tracking_counterexample:
  "find_docs (empty_query\<lparr>q_date := Some []\<rparr>) (demo_store (Suc 0)) = [] \<and>
   patients_tracking (Some (demo_store (Suc 0))) (Some []) =
     Inr (\<lparr>sm_total = 1, sm_checked_in = 0, sm_booked = 1\<rparr>, [project (demo_doc 0)])"
  by (simp add: find_docs_def demo_store_1 matches_date patients_tracking_def
      get_documents_def truthy_def matches_empty project_def demo_doc_0)

subsection \<open>Lifecycle of an appointment\<close>

lemma doc_le_refl: "doc_le d d"
  by (simp add: doc_le_def)

lemma doc_le_trans: "doc_le a b \<Longrightarrow> doc_le b c \<Longrightarrow> doc_le a c"
  by (auto simp: doc_le_def split: if_splits)

lemma doc_le_mark: "doc_le d (mark_checked_in now d)"
  by (simp add: doc_le_def mark_checked_in_def)

lemma list_all2_doc_le_refl: "list_all2 doc_le ds ds"
  by (simp add: list_all2_refl doc_le_refl)

lemma store_le_refl: "store_le s s"
  by (simp add: store_le_def list_all2_doc_le_refl)

lemma store_le_trans:
  assumes "store_le a b" "store_le b c"
  shows "store_le a c"
proof -
  let ?n = "length (docs a)"
  from assms have len: "?n \<le> length (docs b)" "length (docs b) \<le> length (docs c)"
    by (simp_all add: store_le_def)
  from assms(2) have "list_all2 doc_le (take ?n (docs b)) (take ?n (take (length (docs b)) (docs c)))"
    unfolding store_le_def by (blast intro: list_all2_takeI)
  with len have "list_all2 doc_le (take ?n (docs b)) (take ?n (docs c))"
    by (simp add: min_def)
  with assms(1) have "list_all2 doc_le (docs a) (take ?n (docs c))"
    unfolding store_le_def
    by (blast intro: list_all2_trans [of doc_le doc_le doc_le] doc_le_trans)
  with len show ?thesis by (simp add: store_le_def)
qed

lemma update_first_index:
  assumes "a \<in> set ds" "distinct (map doc_id ds)"
  shows "\<exists>i<length ds. ds ! i = a \<and>
           update_first (\<lambda>d. doc_id d = doc_id a) f ds = ds[i := f a]"
  using assms
proof (induction ds)
  case Nil
  then show ?case by simp
next
  case (Cons d ds)
  show ?case
  proof (cases "doc_id d = doc_id a")
    case True
    with Cons.prems have "d = a" by (auto simp: image_iff)
    then have "(d # ds) ! 0 = a \<and>
        update_first (\<lambda>d. doc_id d = doc_id a) f (d # ds) = (d # ds)[0 := f a]"
      by simp
    then show ?thesis by blast
  next
    case False
    with Cons.prems have "a \<in> set ds" "distinct (map doc_id ds)" by auto
    from Cons.IH [OF this] obtain i where i: "i < length ds" "ds ! i = a"
      "update_first (\<lambda>d. doc_id d = doc_id a) f ds = ds[i := f a]" by blast
    with False have "Suc i < length (d # ds) \<and> (d # ds) ! Suc i = a \<and>
        update_first (\<lambda>d. doc_id d = doc_id a) f (d # ds) = (d # ds)[Suc i := f a]"
      by simp
    then show ?thesis by blast
  qed
qed

lemma create_appointment_step:
  assumes "create_appointment ve (Some s) p = (r, Some s')"
  shows "s' = s \<or> (\<exists>d. docs s' = docs s @ [d] \<and> status d = ''booked'' \<and>
            checked_in_at d = None \<and> doc_id d = next_id s \<and> next_id s' = Suc (next_id s))"
proof (cases r)
  case (Inl e)
  with assms create_appointment_failure [of ve "Some s" p e "Some s'"] show ?thesis by simp
next
  case (Inr x)
  with assms create_appointment_Inr [of ve "Some s" p x "Some s'"] show ?thesis
    by (auto simp: Appointment.extend_def document.fields_def)
qed

lemma check_in_step:
  assumes "check_in now (Some s) rq = (r, Some s')" "wf_store s"
  shows "s' = s \<or> (\<exists>i<length (docs s). status (docs s ! i) \<noteq> ''checked_in'' \<and>
            docs s' = (docs s)[i := mark_checked_in now (docs s ! i)] \<and> next_id s' = next_id s)"
proof (cases r)
  case (Inl e)
  with assms check_in_failure [of now "Some s" rq e "Some s'"] show ?thesis by simp
next
  case (Inr x)
  with assms(1) obtain q a where q: "check_in_query rq = Inr q"
    and a: "List.find (matches q) (docs s) = Some a"
    by (auto simp: check_in_def find_one_def split: sum.splits option.splits)
  show ?thesis
  proof (cases "status a = ''checked_in''")
    case True
    with check_in_found [OF q a, of now] assms(1) show ?thesis by simp
  next
    case False
    with check_in_found [OF q a, of now] assms(1)
    have s': "s' = update_one (empty_query\<lparr>q_id := Some (doc_id a)\<rparr>) (mark_checked_in now) s"
      by simp
    from a have "a \<in> set (docs s)" by (auto simp: find_Some_iff)
    with assms(2) update_first_index [of a "docs s" "mark_checked_in now"]
    obtain i where "i < length (docs s)" "docs s ! i = a"
      "update_first (\<lambda>d. doc_id d = doc_id a) (mark_checked_in now) (docs s) =
         (docs s)[i := mark_checked_in now a]"
      by (auto simp: wf_store_def)
    with False s' show ?thesis
      by (auto simp: update_one_by_id) (simp add: update_one_def)
  qed
qed

lemma step_cases_store:
  assumes "step s s'" "wf_store s"
  shows "s' = s \<or>
    (\<exists>d. docs s' = docs s @ [d] \<and> status d = ''booked'' \<and> checked_in_at d = None \<and>
       doc_id d = next_id s \<and> next_id s' = Suc (next_id s)) \<or>
    (\<exists>now. \<exists>i<length (docs s). status (docs s ! i) \<noteq> ''checked_in'' \<and>
       docs s' = (docs s)[i := mark_checked_in now (docs s ! i)] \<and> next_id s' = next_id s)"
  using assms
proof (cases rule: step.cases)
  case (step_create ve payload r)
  from create_appointment_step [OF this] show ?thesis by blast
next
  case (step_check_in now rq r')
  from check_in_step [OF this assms(2)] show ?thesis by blast
qed

lemma step_wf:
  assumes "step s s'" "wf_store s"
  shows "wf_store s'"
proof -
  from step_cases_store [OF assms]
  consider "s' = s"
    | d where "docs s' = docs s @ [d]" "doc_id d = next_id s" "next_id s' = Suc (next_id s)"
    | now i where "i < length (docs s)"
        "docs s' = (docs s)[i := mark_checked_in now (docs s ! i)]" "next_id s' = next_id s"
    by blast
  then show ?thesis
  proof cases
    case 1
    with assms show ?thesis by simp
  next
    case 2
    with assms(2) show ?thesis
      by (fastforce simp: wf_store_def list_all_iff)
  next
    case 3
    have "map doc_id ((docs s)[i := mark_checked_in now (docs s ! i)]) = map doc_id (docs s)"
      using 3(1) by (simp add: map_update mark_checked_in_def list_update_same_conv)
    moreover have "list_all (\<lambda>d. doc_id d < next_id s)
        ((docs s)[i := mark_checked_in now (docs s ! i)])"
      using assms(2) 3(1)
      by (auto simp: wf_store_def list_all_iff mark_checked_in_def dest!: set_update_subset_insert [THEN subsetD])
    ultimately show ?thesis using assms(2) 3 by (simp add: wf_store_def)
  qed
qed

lemma step_status:
  assumes "step s s'" "wf_store s"
    "list_all (\<lambda>d. status d = ''booked'' \<or> status d = ''checked_in'') (docs s)"
  shows "list_all (\<lambda>d. status d = ''booked'' \<or> status d = ''checked_in'') (docs s')"
proof -
  from step_cases_store [OF assms(1,2)]
  consider "s' = s"
    | d where "docs s' = docs s @ [d]" "status d = ''booked''"
    | now i where "i < length (docs s)"
        "docs s' = (docs s)[i := mark_checked_in now (docs s ! i)]"
    by blast
  then show ?thesis
  proof cases
    case 1
    with assms show ?thesis by simp
  next
    case 2
    with assms(3) show ?thesis by simp
  next
    case 3
    with assms(3) show ?thesis
      by (auto simp: list_all_iff mark_checked_in_def dest!: set_update_subset_insert [THEN subsetD])
  qed
qed

lemma step_store_le:
  assumes "step s s'" "wf_store s"
  shows "store_le s s'"
proof -
  from step_cases_store [OF assms]
  consider "s' = s"
    | d where "docs s' = docs s @ [d]"
    | now i where "i < length (docs s)"
        "docs s' = (docs s)[i := mark_checked_in now (docs s ! i)]"
    by blast
  then show ?thesis
  proof cases
    case 1
    then show ?thesis by (simp add: store_le_refl)
  next
    case 2
    then show ?thesis by (simp add: store_le_def list_all2_doc_le_refl)
  next
    case 3
    then show ?thesis
      by (simp add: store_le_def list_all2_conv_all_nth nth_list_update doc_le_refl doc_le_mark)
  qed
qed

lemma steps_invariant:
  assumes "step\<^sup>*\<^sup>* s s'" "wf_store s"
    "list_all (\<lambda>d. status d = ''booked'' \<or> status d = ''checked_in'') (docs s)"
  shows "wf_store s' \<and>
    list_all (\<lambda>d. status d = ''booked'' \<or> status d = ''checked_in'') (docs s') \<and> store_le s s'"
  using assms
proof (induction rule: rtranclp_induct)
  case base
  then show ?case by (simp add: store_le_refl)
next
  case (step y z)
  then show ?case
    by (blast intro: step_wf step_status step_store_le store_le_trans)
qed

lemma reachable_invariant:
  assumes "reachable s"
  shows "wf_store s \<and> list_all (\<lambda>d. status d = ''booked'' \<or> status d = ''checked_in'') (docs s)"
  using steps_invariant [of empty_store s] assms
  by (simp add: reachable_def wf_store_def empty_store_def)

lemma demo_store_0: "demo_store 0 = empty_store"
  by (simp add: demo_store_def empty_store_def)

lemma step_demo: "n < 25 \<Longrightarrow> step (demo_store n) (demo_store (Suc n))"
proof -
  assume "n < 25"
  then have "int (booked_count (demo_store n) (c_department demo_payload) (c_date demo_payload))
      < DEPARTMENT_CAPACITY"
    by (simp add: demo_payload_simps booked_count_demo DEPARTMENT_CAPACITY_def)
  from create_appointment_success [OF demo_payload_ok(1) this demo_payload_ok(2,3), of Some]
  show ?thesis
    by (auto simp: demo_store_Suc intro: step_create)
qed

lemma reachable_demo: "n \<le> 25 \<Longrightarrow> reachable (demo_store n)"
proof (induction n)
  case 0
  then show ?case by (simp add: reachable_def demo_store_0)
next
  case (Suc n)
  then have "step\<^sup>*\<^sup>* empty_store (demo_store n)" "step (demo_store n) (demo_store (Suc n))"
    by (simp_all add: reachable_def step_demo)
  then show ?case unfolding reachable_def by (rule rtranclp.rtrancl_into_rtrancl)
qed

text \<open>
  Claim C8. In every reachable store each appointment has status \<open>booked\<close> or
  \<open>checked_in\<close>. From a reachable store, \<^verbatim>\<open>create_appointment\<close> either leaves the store
  as it is or appends one appointment with status \<open>booked\<close> and no \<open>checked_in_at\<close>;
  \<^verbatim>\<open>check_in\<close> either leaves the store as it is or replaces one appointment that was not
  checked in by the same appointment with status \<open>checked_in\<close> and a timestamp; and
  whatever steps follow, every appointment stays in the store at its position, with the
  same booking data, and one that is checked in stays checked in.
\<close>

theorem appointment_lifecycle:
  assumes "reachable s"
  shows "list_all (\<lambda>d. status d = ''booked'' \<or> status d = ''checked_in'') (docs s) \<and>
    (\<forall>ve p r s'. create_appointment ve (Some s) p = (r, Some s') \<longrightarrow>
       s' = s \<or> (\<exists>d. docs s' = docs s @ [d] \<and> status d = ''booked'' \<and>
                     checked_in_at d = None)) \<and>
    (\<forall>now rq r s'. check_in now (Some s) rq = (r, Some s') \<longrightarrow>
       s' = s \<or> (\<exists>i<length (docs s). status (docs s ! i) = ''booked'' \<and>
                     docs s' = (docs s)[i := mark_checked_in now (docs s ! i)])) \<and>
    (\<forall>s'. step\<^sup>*\<^sup>* s s' \<longrightarrow> store_le s s')"
proof -
  from reachable_invariant [OF assms]
  have wf: "wf_store s"
    and st: "list_all (\<lambda>d. status d = ''booked'' \<or> status d = ''checked_in'') (docs s)"
    by simp_all
  have 1: "s' = s \<or> (\<exists>d. docs s' = docs s @ [d] \<and> status d = ''booked'' \<and>
                     checked_in_at d = None)"
    if "create_appointment ve (Some s) p = (r, Some s')" for ve p r s'
    using create_appointment_step [OF that] by blast
  have 2: "s' = s \<or> (\<exists>i<length (docs s). status (docs s ! i) = ''booked'' \<and>
                     docs s' = (docs s)[i := mark_checked_in now (docs s ! i)])"
    if "check_in now (Some s) rq = (r, Some s')" for now rq r s'
  proof -
    from check_in_step [OF that wf]
    consider "s' = s"
      | i where "i < length (docs s)" "status (docs s ! i) \<noteq> ''checked_in''"
          "docs s' = (docs s)[i := mark_checked_in now (docs s ! i)]"
      by blast
    then show ?thesis
    proof cases
      case 1
      then show ?thesis by simp
    next
      case 2
      with st have "status (docs s ! i) = ''booked''"
        by (auto simp: list_all_length)
      with 2 show ?thesis by blast
    qed
  qed
  have 3: "store_le s s'" if "step\<^sup>*\<^sup>* s s'" for s'
    using steps_invariant [OF that wf st] by simp
  from st 1 2 3 show ?thesis by blast
qed

lemma store_le_checked_in:
  "store_le s s' \<Longrightarrow> i < length (docs s) \<Longrightarrow> status (docs s ! i) = ''checked_in'' \<Longrightarrow>
   i < length (docs s') \<and> status (docs s' ! i) = ''checked_in'' \<and>
   doc_id (docs s' ! i) = doc_id (docs s ! i)"
  by (auto simp: store_le_def list_all2_conv_all_nth doc_le_def split: if_splits)

theorem appointment_lifecycle_witness:
  "reachable (demo_store (Suc 0)) \<and>
   create_appointment Some (Some (demo_store (Suc 0))) demo_payload =
     (Inr \<lparr>cr_id = 1, cr_booking_code = ''CAR20240501-002'', cr_status = ''booked''\<rparr>,
      Some \<lparr>docs = [demo_doc 0, demo_doc 1], next_id = 2\<rparr>) \<and>
   status (demo_doc 1) = ''booked'' \<and> checked_in_at (demo_doc 1) = None \<and>
   check_in 7 (Some (demo_store (Suc 0))) (code_request ''CAR20240501-001'') =
     (Inr (checked_in_response (demo_doc 0)),
      Some \<lparr>docs = [mark_checked_in 7 (demo_doc 0)], next_id = Suc 0\<rparr>) \<and>
   store_le (demo_store (Suc 0)) \<lparr>docs = [mark_checked_in 7 (demo_doc 0)], next_id = Suc 0\<rparr>"
proof -
  have r: "reachable (demo_store (Suc 0))" by (rule reachable_demo) simp
  note L = appointment_lifecycle [OF r]
  have c: "create_appointment Some (Some (demo_store (Suc 0))) demo_payload =
     (Inr \<lparr>cr_id = 1, cr_booking_code = ''CAR20240501-002'', cr_status = ''booked''\<rparr>,
      Some \<lparr>docs = [demo_doc 0, demo_doc 1], next_id = 2\<rparr>)"
  proof -
    have "int (booked_count (demo_store (Suc 0)) (c_department demo_payload)
        (c_date demo_payload)) < DEPARTMENT_CAPACITY"
      by (simp add: demo_payload_simps booked_count_demo DEPARTMENT_CAPACITY_def)
    from create_appointment_success [OF demo_payload_ok(1) this demo_payload_ok(2,3), of Some]
      format_0d_three [of "Suc (Suc 0)"]
    show ?thesis
      by (simp add: new_document_demo demo_payload_simps booked_count_demo upper_Car
          remove_dashes_demo three_digits_2)
         (simp add: demo_store_def)
  qed
  have k: "check_in 7 (Some (demo_store (Suc 0))) (code_request ''CAR20240501-001'') =
     (Inr (checked_in_response (demo_doc 0)),
      Some \<lparr>docs = [mark_checked_in 7 (demo_doc 0)], next_id = Suc 0\<rparr>)"
    by (simp add: check_in_def check_in_query_def code_request_def truthy_def find_one_def
        demo_store_1 matches_by_code matches_by_id update_one_def checked_in_response_def)
       (simp add: demo_doc_0)
  have "step (demo_store (Suc 0)) \<lparr>docs = [mark_checked_in 7 (demo_doc 0)], next_id = Suc 0\<rparr>"
    using k by (rule step_check_in)
  then have "step\<^sup>*\<^sup>* (demo_store (Suc 0))
      \<lparr>docs = [mark_checked_in 7 (demo_doc 0)], next_id = Suc 0\<rparr>" by blast
  with L have "store_le (demo_store (Suc 0))
      \<lparr>docs = [mark_checked_in 7 (demo_doc 0)], next_id = Suc 0\<rparr>" by blast
  with r c k show ?thesis by (simp add: demo_doc_def)
qed

subsection \<open>Calendar\<close>

lemma of_char_digit_char: "n < 10 \<Longrightarrow> (of_char (digit_char n) :: nat) = 48 + n"
  by (simp add: digit_char_def)

lemma digit_char_inj: "a < 10 \<Longrightarrow> b < 10 \<Longrightarrow> digit_char a = digit_char b \<Longrightarrow> a = b"
proof -
  assume a: "a < 10" and b: "b < 10" and e: "digit_char a = digit_char b"
  from e have "(of_char (digit_char a) :: nat) = of_char (digit_char b)" by (rule arg_cong)
  then have "48 + a = 48 + b" by (simp only: of_char_digit_char [OF a] of_char_digit_char [OF b])
  then show "a = b" by (rule add_left_imp_eq)
qed

lemma is_digit_digit_char: "n < 10 \<Longrightarrow> is_digit (digit_char n)"
  by (simp add: is_digit_def of_char_digit_char)

lemma format_0d_two:
  assumes "n < 100"
  shows "format_0d 2 (int n) = [digit_char (n div 10), digit_char (n mod 10)]"
proof (cases "n < 10")
  case True
  then show ?thesis
    by (simp add: format_0d_def zfill_def dec_lt10 digit_char_0)
next
  case False
  with assms show ?thesis
    by (simp add: format_0d_def zfill_def dec_lt100)
qed

lemma format_0d_two_inj:
  assumes "a < 100" "b < 100" "format_0d 2 (int a) = format_0d 2 (int b)"
  shows "a = b"
proof -
  from assms have "digit_char (a div 10) = digit_char (b div 10)"
    "digit_char (a mod 10) = digit_char (b mod 10)"
    by (simp_all add: format_0d_two)
  with assms(1,2) have "a div 10 = b div 10" "a mod 10 = b mod 10"
    by (auto intro: digit_char_inj)
  then show ?thesis by (metis div_mult_mod_eq)
qed

lemma dec_lt10000:
  "1000 \<le> n \<Longrightarrow> n < 10000 \<Longrightarrow>
   dec n = [digit_char (n div 1000), digit_char (n div 100 mod 10),
            digit_char (n div 10 mod 10), digit_char (n mod 10)]"
  by (subst dec.simps) (simp add: dec_lt1000 div_mult2_eq [symmetric])

lemma format_0d_four:
  assumes "1000 \<le> n" "n < 10000"
  shows "format_0d 4 (int n) = [digit_char (n div 1000), digit_char (n div 100 mod 10),
            digit_char (n div 10 mod 10), digit_char (n mod 10)]"
  using assms by (simp add: format_0d_def zfill_def dec_lt10000)

lemma date_pattern_shape:
  assumes "is_digit a" "is_digit b" "is_digit c" "is_digit d" "is_digit e" "is_digit f"
    "is_digit g" "is_digit h"
  shows "date_pattern [a, b, c, d, CHR ''-'', e, f, CHR ''-'', g, h]"
  using assms by (simp add: date_pattern_def eval_nat_numeral)

lemma iso_date_eq:
  assumes "1000 \<le> y" "y \<le> 9999" "0 \<le> m" "m < 100" "0 \<le> d" "d < 100"
  shows "iso_date y m d =
    [digit_char (nat y div 1000), digit_char (nat y div 100 mod 10),
     digit_char (nat y div 10 mod 10), digit_char (nat y mod 10), CHR ''-'',
     digit_char (nat m div 10), digit_char (nat m mod 10), CHR ''-'',
     digit_char (nat d div 10), digit_char (nat d mod 10)]"
proof -
  have "format_0d 4 y = format_0d 4 (int (nat y))" "format_0d 2 m = format_0d 2 (int (nat m))"
    "format_0d 2 d = format_0d 2 (int (nat d))"
    using assms by simp_all
  moreover have "1000 \<le> nat y" "nat y < 10000" "nat m < 100" "nat d < 100"
    using assms by simp_all
  ultimately show ?thesis
    by (simp only: iso_date_def strftime_ymd_def py_date.simps format_0d_four format_0d_two)
       simp
qed

lemma iso_date_pattern:
  assumes "1000 \<le> y" "y \<le> 9999" "0 \<le> m" "m < 100" "0 \<le> d" "d < 100"
  shows "date_pattern (iso_date y m d)"
proof -
  have "nat y < 10 * 1000" "nat m < 10 * 10" "nat d < 10 * 10"
    using assms by simp_all
  then have "nat y div 1000 < 10" "nat m div 10 < 10" "nat d div 10 < 10"
    by (simp_all only: less_mult_imp_div_less)
  then show ?thesis
    unfolding iso_date_eq [OF assms]
    by (intro date_pattern_shape is_digit_digit_char) simp_all
qed

lemma iso_date_inj:
  assumes "1000 \<le> y" "y \<le> 9999" "0 \<le> m" "m < 100" "0 \<le> d" "d < 100" "0 \<le> d'" "d' < 100"
    "iso_date y m d = iso_date y m d'"
  shows "d = d'"
proof -
  from assms have "digit_char (nat d div 10) = digit_char (nat d' div 10)"
    "digit_char (nat d mod 10) = digit_char (nat d' mod 10)"
    by (simp_all add: iso_date_eq)
  moreover from assms have "nat d < 10 * 10" "nat d' < 10 * 10" by simp_all
  then have "nat d div 10 < 10" "nat d' div 10 < 10"
    by (simp_all only: less_mult_imp_div_less)
  moreover have "nat d mod 10 < 10" "nat d' mod 10 < 10" by simp_all
  ultimately have "nat d div 10 = nat d' div 10" "nat d mod 10 = nat d' mod 10"
    by (auto intro: digit_char_inj)
  then have "nat d = nat d'" by (metis div_mult_mod_eq)
  with assms show ?thesis by simp
qed

lemma update_fresh: "k \<notin> fst ` set al \<Longrightarrow> AList.update k v al = al @ [(k, v)]"
  by (induction al) auto

lemma foldl_update_fresh:
  assumes "\<And>acc d. f acc d = (if ok d then AList.update (key d) (val d) acc else acc)"
    and "distinct xs"
    and "\<And>d d'. d \<in> set xs \<Longrightarrow> d' \<in> set xs \<Longrightarrow> ok d \<Longrightarrow> ok d' \<Longrightarrow> key d = key d' \<Longrightarrow> d = d'"
    and "\<And>d. d \<in> set xs \<Longrightarrow> ok d \<Longrightarrow> key d \<notin> fst ` set acc"
  shows "foldl f acc xs = acc @ map (\<lambda>d. (key d, val d)) (filter ok xs)"
  using assms(2-)
proof (induction xs arbitrary: acc)
  case Nil
  then show ?case by simp
next
  case (Cons x xs)
  show ?case
  proof (cases "ok x")
    case False
    have "foldl f acc xs = acc @ map (\<lambda>d. (key d, val d)) (filter ok xs)"
      using Cons.prems by (intro Cons.IH) auto
    with False show ?thesis by (simp add: assms(1) [of acc x])
  next
    case True
    with Cons.prems(3) [of x] have "f acc x = acc @ [(key x, val x)]"
      by (simp add: assms(1) [of acc x] update_fresh)
    moreover have "foldl f (acc @ [(key x, val x)]) xs =
        (acc @ [(key x, val x)]) @ map (\<lambda>d. (key d, val d)) (filter ok xs)"
    proof (intro Cons.IH)
      show "distinct xs" using Cons.prems(1) by simp
    next
      fix d d' assume "d \<in> set xs" "d' \<in> set xs" "ok d" "ok d'" "key d = key d'"
      then show "d = d'" using Cons.prems(2) [of d d'] by simp
    next
      fix d assume d: "d \<in> set xs" "ok d"
      with Cons.prems(1) have "d \<noteq> x" by auto
      with d True Cons.prems(2) [of d x] have "key d \<noteq> key x" by auto
      with d Cons.prems(3) [of d] show "key d \<notin> fst ` set (acc @ [(key x, val x)])" by auto
    qed
    ultimately show ?thesis using True by simp
  qed
qed

lemma filter_upto_days:
  assumes "1 \<le> n" "n \<le> 31"
  shows "filter (\<lambda>d. 1 \<le> d \<and> d \<le> n) [1..31] = [1..n]"
proof -
  have "[1..31] = [1..n] @ [n + 1..31]" using assms by (rule upto_split2)
  moreover have "filter (\<lambda>d. 1 \<le> d \<and> d \<le> n) [1..n] = [1..n]"
    by (simp add: filter_id_conv)
  moreover have "filter (\<lambda>d. 1 \<le> d \<and> d \<le> n) [n + 1..31] = []"
    by (simp add: filter_empty_conv)
  ultimately show ?thesis by simp
qed

lemma days_in_month_bounds: "28 \<le> days_in_month y m \<and> days_in_month y m \<le> 31"
  by (simp add: days_in_month_def)

lemma calendar_day_eq:
  assumes "1 \<le> y" "y \<le> 9999" "1 \<le> m" "m \<le> 12"
  shows "calendar_day db dept y m acc d =
    (if 1 \<le> d \<and> d \<le> days_in_month y m
     then AList.update (iso_date y m d)
        \<lparr>de_booked = count_booked_for db dept (iso_date y m d),
         de_remaining = max 0 (DEPARTMENT_CAPACITY - count_booked_for db dept (iso_date y m d)),
         de_used_pct = used_pct_of (count_booked_for db dept (iso_date y m d)),
         de_capacity = DEPARTMENT_CAPACITY\<rparr> acc
     else acc)"
  using assms by (simp add: calendar_day_def mk_date_def iso_date_def Let_def)

lemma calendar_fold:
  assumes "1970 \<le> y" "y \<le> 2100" "1 \<le> m" "m \<le> 12"
  shows "foldl (calendar_day db dept y m) [] [1..31] =
    map (\<lambda>d. (iso_date y m d,
        \<lparr>de_booked = count_booked_for db dept (iso_date y m d),
         de_remaining = max 0 (DEPARTMENT_CAPACITY - count_booked_for db dept (iso_date y m d)),
         de_used_pct = used_pct_of (count_booked_for db dept (iso_date y m d)),
         de_capacity = DEPARTMENT_CAPACITY\<rparr>)) [1..days_in_month y m]"
proof -
  let ?ok = "\<lambda>d. 1 \<le> d \<and> d \<le> days_in_month y m"
  let ?val = "\<lambda>d. \<lparr>de_booked = count_booked_for db dept (iso_date y m d),
         de_remaining = max 0 (DEPARTMENT_CAPACITY - count_booked_for db dept (iso_date y m d)),
         de_used_pct = used_pct_of (count_booked_for db dept (iso_date y m d)),
         de_capacity = DEPARTMENT_CAPACITY\<rparr>"
  have b: "1 \<le> days_in_month y m" "days_in_month y m \<le> 31"
    using days_in_month_bounds [of y m] by simp_all
  have "foldl (calendar_day db dept y m) [] [1..31] =
      [] @ map (\<lambda>d. (iso_date y m d, ?val d)) (filter ?ok [1..31])"
  proof (rule foldl_update_fresh)
    fix acc d
    show "calendar_day db dept y m acc d =
        (if ?ok d then AList.update (iso_date y m d) (?val d) acc else acc)"
      using assms by (intro calendar_day_eq) simp_all
  next
    show "distinct [1..31]" by simp
  next
    fix d d' :: int
    assume "d \<in> set [1..31]" "d' \<in> set [1..31]" "iso_date y m d = iso_date y m d'"
    then show "d = d'"
      using assms by (intro iso_date_inj [of y m d d']) simp_all
  qed simp
  then show ?thesis by (simp add: filter_upto_days [OF b])
qed

lemma calendar_handler_days:
  assumes "dept \<in> set DEPARTMENTS" "1970 \<le> y" "y \<le> 2100" "1 \<le> m" "m \<le> 12"
  shows "\<exists>c. calendar_availability db dept y m = Inr c \<and>
     map fst (cal_days c) = map (iso_date y m) [1..days_in_month y m] \<and>
     distinct (map fst (cal_days c)) \<and>
     (\<forall>d\<in>{1..31}. iso_date y m d \<in> fst ` set (cal_days c) \<longleftrightarrow> d \<le> days_in_month y m) \<and>
     list_all (\<lambda>(k, v). date_pattern k \<and>
        (\<exists>a. get_availability db dept k = Inr a \<and> v = day_metrics a)) (cal_days c)"
proof -
  let ?val = "\<lambda>d. \<lparr>de_booked = count_booked_for db dept (iso_date y m d),
         de_remaining = max 0 (DEPARTMENT_CAPACITY - count_booked_for db dept (iso_date y m d)),
         de_used_pct = used_pct_of (count_booked_for db dept (iso_date y m d)),
         de_capacity = DEPARTMENT_CAPACITY\<rparr>"
  let ?days = "map (\<lambda>d. (iso_date y m d, ?val d)) [1..days_in_month y m]"
  let ?c = "\<lparr>cal_department = dept, cal_year = y, cal_month = m, cal_days = ?days\<rparr>"
  have b: "1 \<le> days_in_month y m" "days_in_month y m \<le> 31"
    using days_in_month_bounds [of y m] by simp_all
  have inj: "d = d'" if "1 \<le> d" "d \<le> 31" "1 \<le> d'" "d' \<le> 31"
    "iso_date y m d = iso_date y m d'" for d d'
    using assms that by (intro iso_date_inj [of y m d d']) simp_all
  have c: "calendar_availability db dept y m = Inr ?c"
    using assms calendar_fold [OF assms(2-5), of db dept]
    by (simp add: calendar_availability_def)
  have keys: "map fst ?days = map (iso_date y m) [1..days_in_month y m]"
    by (simp add: o_def)
  have "inj_on (iso_date y m) {1..days_in_month y m}"
    using b by (intro inj_onI inj) simp_all
  then have dist: "distinct (map fst ?days)"
    unfolding keys by (simp add: distinct_map)
  have mem: "iso_date y m d \<in> fst ` set ?days \<longleftrightarrow> d \<le> days_in_month y m"
    if "d \<in> {1..31}" for d
  proof
    assume "iso_date y m d \<in> fst ` set ?days"
    then obtain d' where d': "1 \<le> d'" "d' \<le> days_in_month y m"
      "iso_date y m d = iso_date y m d'"
      by (auto simp: image_iff)
    with that b inj [of d d'] show "d \<le> days_in_month y m" by simp
  next
    assume "d \<le> days_in_month y m"
    with that show "iso_date y m d \<in> fst ` set ?days"
      by (auto simp: image_iff)
  qed
  have ent: "date_pattern (iso_date y m d) \<and>
      (\<exists>a. get_availability db dept (iso_date y m d) = Inr a \<and> ?val d = day_metrics a)"
    if "1 \<le> d" "d \<le> days_in_month y m" for d
  proof -
    have "date_pattern (iso_date y m d)"
      using assms that b by (intro iso_date_pattern) simp_all
    moreover have "get_availability db dept (iso_date y m d) =
        Inr \<lparr>av_department = dept, av_date = iso_date y m d,
          av_capacity = DEPARTMENT_CAPACITY,
          av_booked = count_booked_for db dept (iso_date y m d),
          av_remaining = max 0 (DEPARTMENT_CAPACITY - count_booked_for db dept (iso_date y m d)),
          av_used_pct = used_pct_of (count_booked_for db dept (iso_date y m d))\<rparr>"
      using assms(1) by (simp add: get_availability_def Let_def)
    ultimately show ?thesis by (simp add: day_metrics_def)
  qed
  then have all: "list_all (\<lambda>(k, v). date_pattern k \<and>
        (\<exists>a. get_availability db dept k = Inr a \<and> v = day_metrics a)) ?days"
    by (simp add: list_all_iff)
  from c keys dist mem all show ?thesis
    by (intro exI [of _ ?c]) (simp del: set_map map_map)
qed

subsection \<open>The program's calendar against the Gregorian one\<close>

lemma digit_char_decimal:
  assumes "n < 10"
  shows "digit_char n = decimal_digit n"
proof -
  have "\<forall>k\<in>set [0..<10]. digit_char k = decimal_digit k" by code_simp
  with assms show ?thesis by simp
qed

lemma iso_date_spec:
  assumes "1000 \<le> y" "y \<le> 9999" "0 \<le> m" "m < 100" "0 \<le> d" "d < 100"
  shows "iso_date y m d = spec_iso_date y m d"
proof -
  have "nat y < 10 * 1000" "nat m < 10 * 10" "nat d < 10 * 10"
    using assms by simp_all
  then have "nat y div 1000 < 10" "nat m div 10 < 10" "nat d div 10 < 10"
    by (simp_all only: less_mult_imp_div_less)
  then show ?thesis
    unfolding iso_date_eq [OF assms] spec_iso_date_def
    by (simp add: digit_char_decimal)
qed

lemma days_in_month_spec:
  assumes "1 \<le> m" "m \<le> 12"
  shows "days_in_month y m = month_length y m"
proof -
  from assms have "m = 1 \<or> m = 2 \<or> m = 3 \<or> m = 4 \<or> m = 5 \<or> m = 6 \<or> m = 7 \<or> m = 8 \<or>
      m = 9 \<or> m = 10 \<or> m = 11 \<or> m = 12"
    by arith
  then show ?thesis
    by (elim disjE) (simp_all add: days_in_month_def is_leap_def month_length_def)
qed

lemma map_iso_date_spec:
  assumes "1970 \<le> y" "y \<le> 2100" "1 \<le> m" "m \<le> 12" "n \<le> 31"
  shows "map (iso_date y m) [1..n] = map (spec_iso_date y m) [1..n]"
  using assms by (intro map_cong refl iso_date_spec) simp_all

text \<open>
  Claim C6. For a department of the registry, a year in 1970..2100 and a month in 1..12,
  \<^verbatim>\<open>GET /calendar-availability\<close> answers with the calendar of the handler, which lists
  exactly the days of that month of the Gregorian calendar, in ascending order and each
  once: its keys are the strings \<^verbatim>\<open>YYYY-MM-DD\<close> of the days from 1 to the length of the
  month (28 or 29 for February by the leap rule, 30 for April, June, September and
  November, 31 otherwise), written digit by digit, so a candidate day in 1..31 has a key
  precisely when it is a day of the month; every key matches the pattern of a date; and
  the entry of a key carries the metrics that \<^verbatim>\<open>get_availability\<close> returns for that
  department and date.
\<close>

theorem calendar_availability_days:
  assumes "dept \<in> set DEPARTMENTS" "1970 \<le> y" "y \<le> 2100" "1 \<le> m" "m \<le> 12"
  shows "\<exists>c. get_calendar_availability db dept y m = Inr c \<and>
     calendar_availability db dept y m = Inr c \<and>
     map fst (cal_days c) = map (spec_iso_date y m) [1..month_length y m] \<and>
     distinct (map fst (cal_days c)) \<and>
     (\<forall>d\<in>{1..31}. spec_iso_date y m d \<in> fst ` set (cal_days c) \<longleftrightarrow> d \<le> month_length y m) \<and>
     list_all (\<lambda>(k, v). date_pattern k \<and>
        (\<exists>a. get_availability db dept k = Inr a \<and> v = day_metrics a)) (cal_days c)"
proof -
  from calendar_handler_days [OF assms, of db]
  obtain c where c: "calendar_availability db dept y m = Inr c"
    and keys: "map fst (cal_days c) = map (iso_date y m) [1..days_in_month y m]"
    and dist: "distinct (map fst (cal_days c))"
    and mem: "\<forall>d\<in>{1..31}. iso_date y m d \<in> fst ` set (cal_days c) \<longleftrightarrow> d \<le> days_in_month y m"
    and ent: "list_all (\<lambda>(k, v). date_pattern k \<and>
        (\<exists>a. get_availability db dept k = Inr a \<and> v = day_metrics a)) (cal_days c)"
    by blast
  have len: "days_in_month y m = month_length y m"
    using assms by (intro days_in_month_spec)
  have le: "month_length y m \<le> 31"
    using days_in_month_bounds [of y m] by (simp add: len)
  have route: "get_calendar_availability db dept y m = Inr c"
    using assms c by (simp add: get_calendar_availability_def valid_calendar_query_def)
  have keys': "map fst (cal_days c) = map (spec_iso_date y m) [1..month_length y m]"
    using keys map_iso_date_spec [OF assms(2-5) le] by (simp only: len)
  have mem': "spec_iso_date y m d \<in> fst ` set (cal_days c) \<longleftrightarrow> d \<le> month_length y m"
    if "d \<in> {1..31}" for d
  proof -
    have "iso_date y m d = spec_iso_date y m d"
      using assms that by (intro iso_date_spec) simp_all
    with mem that show ?thesis by (simp only: len) metis
  qed
  from route c keys' dist mem' ent show ?thesis
    by (intro exI [of _ c]) (simp del: set_map map_map)
qed

lemma month_length_samples:
  "month_length 2024 2 = 29" "month_length 2023 2 = 28" "month_length 2023 4 = 30"
  "month_length 2024 5 = 31"
  by (simp_all add: month_length_def)

lemma spec_iso_date_feb_2024:
  "map (spec_iso_date 2024 2) [1..29] =
     [''2024-02-01'', ''2024-02-02'', ''2024-02-03'', ''2024-02-04'', ''2024-02-05'',
      ''2024-02-06'', ''2024-02-07'', ''2024-02-08'', ''2024-02-09'', ''2024-02-10'',
      ''2024-02-11'', ''2024-02-12'', ''2024-02-13'', ''2024-02-14'', ''2024-02-15'',
      ''2024-02-16'', ''2024-02-17'', ''2024-02-18'', ''2024-02-19'', ''2024-02-20'',
      ''2024-02-21'', ''2024-02-22'', ''2024-02-23'', ''2024-02-24'', ''2024-02-25'',
      ''2024-02-26'', ''2024-02-27'', ''2024-02-28'', ''2024-02-29'']"
  by (simp add: spec_iso_date_def decimal_digit_def upto_rec1)

lemma spec_iso_date_feb_2023:
  "map (spec_iso_date 2023 2) [1..28] =
     [''2023-02-01'', ''2023-02-02'', ''2023-02-03'', ''2023-02-04'', ''2023-02-05'',
      ''2023-02-06'', ''2023-02-07'', ''2023-02-08'', ''2023-02-09'', ''2023-02-10'',
      ''2023-02-11'', ''2023-02-12'', ''2023-02-13'', ''2023-02-14'', ''2023-02-15'',
      ''2023-02-16'', ''2023-02-17'', ''2023-02-18'', ''2023-02-19'', ''2023-02-20'',
      ''2023-02-21'', ''2023-02-22'', ''2023-02-23'', ''2023-02-24'', ''2023-02-25'',
      ''2023-02-26'', ''2023-02-27'', ''2023-02-28'']"
  by (simp add: spec_iso_date_def decimal_digit_def upto_rec1)

lemma spec_iso_date_samples:
  "spec_iso_date 2023 4 30 = ''2023-04-30''" "spec_iso_date 2023 4 31 = ''2023-04-31''"
  "spec_iso_date 2024 5 1 = ''2024-05-01''" "spec_iso_date 2024 5 2 = ''2024-05-02''"
  by (simp_all add: spec_iso_date_def decimal_digit_def)

lemma demo_store_other_day:
  "filter (\<lambda>d. department d = ''Cardiology'' \<and> date d = ''2024-05-02'')
     (persisted (Some (demo_store n))) = []"
  by (simp add: persisted_def demo_store_def demo_doc_def)

lemma demo_availability:
  "get_availability (Some (demo_store 3)) ''Cardiology'' ''2024-05-01'' =
     Inr \<lparr>av_department = ''Cardiology'', av_date = ''2024-05-01'', av_capacity = 25,
          av_booked = 3, av_remaining = 22, av_used_pct = 12\<rparr>"
  "get_availability (Some (demo_store 3)) ''Cardiology'' ''2024-05-02'' =
     Inr \<lparr>av_department = ''Cardiology'', av_date = ''2024-05-02'', av_capacity = 25,
          av_booked = 0, av_remaining = 25, av_used_pct = 0\<rparr>"
  by (simp_all add: get_availability_def DEPARTMENTS_def Let_def count_booked_for_eq
      demo_filter_length demo_store_other_day used_pct_of_eq DEPARTMENT_CAPACITY_def)

theorem calendar_availability_days_witness:
  "''Cardiology'' \<in> set DEPARTMENTS \<and>
   (\<exists>c. get_calendar_availability (Some (demo_store 3)) ''Cardiology'' 2024 2 = Inr c \<and>
        map fst (cal_days c) =
          [''2024-02-01'', ''2024-02-02'', ''2024-02-03'', ''2024-02-04'', ''2024-02-05'',
           ''2024-02-06'', ''2024-02-07'', ''2024-02-08'', ''2024-02-09'', ''2024-02-10'',
           ''2024-02-11'', ''2024-02-12'', ''2024-02-13'', ''2024-02-14'', ''2024-02-15'',
           ''2024-02-16'', ''2024-02-17'', ''2024-02-18'', ''2024-02-19'', ''2024-02-20'',
           ''2024-02-21'', ''2024-02-22'', ''2024-02-23'', ''2024-02-24'', ''2024-02-25'',
           ''2024-02-26'', ''2024-02-27'', ''2024-02-28'', ''2024-02-29'']) \<and>
   (\<exists>c. get_calendar_availability (Some (demo_store 3)) ''Cardiology'' 2023 2 = Inr c \<and>
        map fst (cal_days c) =
          [''2023-02-01'', ''2023-02-02'', ''2023-02-03'', ''2023-02-04'', ''2023-02-05'',
           ''2023-02-06'', ''2023-02-07'', ''2023-02-08'', ''2023-02-09'', ''2023-02-10'',
           ''2023-02-11'', ''2023-02-12'', ''2023-02-13'', ''2023-02-14'', ''2023-02-15'',
           ''2023-02-16'', ''2023-02-17'', ''2023-02-18'', ''2023-02-19'', ''2023-02-20'',
           ''2023-02-21'', ''2023-02-22'', ''2023-02-23'', ''2023-02-24'', ''2023-02-25'',
           ''2023-02-26'', ''2023-02-27'', ''2023-02-28'']) \<and>
   (\<exists>c. get_calendar_availability (Some (demo_store 3)) ''Cardiology'' 2023 4 = Inr c \<and>
        length (cal_days c) = 30 \<and> ''2023-04-30'' \<in> fst ` set (cal_days c) \<and>
        ''2023-04-31'' \<notin> fst ` set (cal_days c)) \<and>
   (\<exists>c. get_calendar_availability (Some (demo_store 3)) ''Cardiology'' 2024 5 = Inr c \<and>
        length (cal_days c) = 31 \<and>
        map_of (cal_days c) ''2024-05-01'' =
          Some \<lparr>de_booked = 3, de_remaining = 22, de_used_pct = 12, de_capacity = 25\<rparr> \<and>
        map_of (cal_days c) ''2024-05-02'' =
          Some \<lparr>de_booked = 0, de_remaining = 25, de_used_pct = 0, de_capacity = 25\<rparr>)"
proof -
  let ?db = "Some (demo_store 3)"
  have d: "''Cardiology'' \<in> set DEPARTMENTS" by (simp add: DEPARTMENTS_def)
  have y24: "1970 \<le> (2024::int)" "(2024::int) \<le> 2100" by simp_all
  have y23: "1970 \<le> (2023::int)" "(2023::int) \<le> 2100" by simp_all
  have m2: "1 \<le> (2::int)" "(2::int) \<le> 12" by simp_all
  have m4: "1 \<le> (4::int)" "(4::int) \<le> 12" by simp_all
  have m5: "1 \<le> (5::int)" "(5::int) \<le> 12" by simp_all
  from calendar_availability_days [OF d y24 m2, of ?db]
  have k1: "\<exists>c. get_calendar_availability ?db ''Cardiology'' 2024 2 = Inr c \<and>
      map fst (cal_days c) = map (spec_iso_date 2024 2) [1..29]"
    unfolding month_length_samples by blast
  from calendar_availability_days [OF d y23 m2, of ?db]
  have k2: "\<exists>c. get_calendar_availability ?db ''Cardiology'' 2023 2 = Inr c \<and>
      map fst (cal_days c) = map (spec_iso_date 2023 2) [1..28]"
    unfolding month_length_samples by blast
  from calendar_availability_days [OF d y23 m4, of ?db]
  obtain c3 where c3: "get_calendar_availability ?db ''Cardiology'' 2023 4 = Inr c3"
    "map fst (cal_days c3) = map (spec_iso_date 2023 4) [1..30]"
    "\<forall>d\<in>{1..31}. spec_iso_date 2023 4 d \<in> fst ` set (cal_days c3) \<longleftrightarrow> d \<le> 30"
    unfolding month_length_samples by blast
  from c3(2) have "length (map fst (cal_days c3)) = 30" by simp
  then have l3: "length (cal_days c3) = 30" by simp
  from c3(3) have "spec_iso_date 2023 4 30 \<in> fst ` set (cal_days c3)"
    "spec_iso_date 2023 4 31 \<notin> fst ` set (cal_days c3)"
    by simp_all
  then have m3: "''2023-04-30'' \<in> fst ` set (cal_days c3)"
    "''2023-04-31'' \<notin> fst ` set (cal_days c3)"
    unfolding spec_iso_date_samples .
  from calendar_availability_days [OF d y24 m5, of ?db]
  obtain c4 where c4: "get_calendar_availability ?db ''Cardiology'' 2024 5 = Inr c4"
    "map fst (cal_days c4) = map (spec_iso_date 2024 5) [1..31]"
    "distinct (map fst (cal_days c4))"
    "\<forall>d\<in>{1..31}. spec_iso_date 2024 5 d \<in> fst ` set (cal_days c4) \<longleftrightarrow> d \<le> 31"
    "list_all (\<lambda>(k, v). date_pattern k \<and>
        (\<exists>a. get_availability ?db ''Cardiology'' k = Inr a \<and> v = day_metrics a)) (cal_days c4)"
    unfolding month_length_samples by blast
  from c4(2) have "length (map fst (cal_days c4)) = 31" by simp
  then have l4: "length (cal_days c4) = 31" by simp
  from c4(4) have "spec_iso_date 2024 5 1 \<in> fst ` set (cal_days c4)"
    "spec_iso_date 2024 5 2 \<in> fst ` set (cal_days c4)"
    by simp_all
  then have "''2024-05-01'' \<in> fst ` set (cal_days c4)" "''2024-05-02'' \<in> fst ` set (cal_days c4)"
    unfolding spec_iso_date_samples .
  then obtain v1 v2 where v: "(''2024-05-01'', v1) \<in> set (cal_days c4)"
    "(''2024-05-02'', v2) \<in> set (cal_days c4)"
    by (auto simp: image_iff)
  have ent: "\<exists>a. get_availability ?db ''Cardiology'' k = Inr a \<and> w = day_metrics a"
    if "(k, w) \<in> set (cal_days c4)" for k w
    using c4(5) that by (auto simp: list_all_iff)
  from ent [OF v(1)]
  have v1: "v1 = \<lparr>de_booked = 3, de_remaining = 22, de_used_pct = 12, de_capacity = 25\<rparr>"
    by (auto simp: demo_availability day_metrics_def)
  from ent [OF v(2)]
  have v2: "v2 = \<lparr>de_booked = 0, de_remaining = 25, de_used_pct = 0, de_capacity = 25\<rparr>"
    by (auto simp: demo_availability day_metrics_def)
  from v v1 v2 c4(3) have m4: "map_of (cal_days c4) ''2024-05-01'' =
      Some \<lparr>de_booked = 3, de_remaining = 22, de_used_pct = 12, de_capacity = 25\<rparr>"
    "map_of (cal_days c4) ''2024-05-02'' =
      Some \<lparr>de_booked = 0, de_remaining = 25, de_used_pct = 0, de_capacity = 25\<rparr>"
    by simp_all
  from c3(1) l3 m3 have k3: "\<exists>c. get_calendar_availability ?db ''Cardiology'' 2023 4 = Inr c \<and>
      length (cal_days c) = 30 \<and> ''2023-04-30'' \<in> fst ` set (cal_days c) \<and>
      ''2023-04-31'' \<notin> fst ` set (cal_days c)"
    by blast
  from c4(1) l4 m4 have k4: "\<exists>c. get_calendar_availability ?db ''Cardiology'' 2024 5 = Inr c \<and>
      length (cal_days c) = 31 \<and>
      map_of (cal_days c) ''2024-05-01'' =
        Some \<lparr>de_booked = 3, de_remaining = 22, de_used_pct = 12, de_capacity = 25\<rparr> \<and>
      map_of (cal_days c) ''2024-05-02'' =
        Some \<lparr>de_booked = 0, de_remaining = 25, de_used_pct = 0, de_capacity = 25\<rparr>"
    by blast
  from d k1 k2 k3 k4 show ?thesis
    unfolding spec_iso_date_feb_2024 spec_iso_date_feb_2023 by (intro conjI)
qed

end
